theory Spec2Isabelle
  imports
    Main
    "HOL-Library.Word"
    "HOL-Library.Char_ord"
    "HOL-Library.List_Lexorder"
    "HOL-Library.Multiset"
begin

unbundle bit_operations_syntax

section \<open>The request envelope of \<open>huaruntong_wx/api.py\<close>\<close>

text \<open>
  The theory embeds the class \<open>HuaRunTongAPI\<close> of
  \<open>src/script/huaruntong/huaruntong_wx/api.py\<close>: \<open>_pad_pkcs7\<close>, \<open>_crypto_data\<close>,
  \<open>_send_request\<close> and \<open>sign_in\<close>, together with the behaviour of the Python builtins
  and standard-library functions they call (\<open>str\<close>, \<open>sorted\<close>, \<open>str.join\<close>,
  \<open>json.dumps\<close>, \<open>urllib.parse.quote\<close>, \<open>str.encode\<close>, \<open>hmac\<close>, \<open>base64\<close>).
  The primitives MD5, the AES block cipher and RSA-OAEP are parameters of the model.

  Python strings are modelled as \<open>string\<close>: a \<open>char\<close> stands for the code point of the
  same number, so the model covers the code points 0 to 255. Byte strings are lists of
  8-bit words. Floating-point values are left out of the value type. An int is converted
  to text as CPython 3.11 does, with its limit of 4300 decimal digits.
\<close>

subsection \<open>Python values\<close>

type_synonym byte = "8 word"

datatype error = TypeError | ValueError | ZeroDivisionError

text \<open>
  The values a parameter dict can hold. A tuple is a sequence that is not a list:
  \<open>json.dumps\<close> writes it as an array, \<open>isinstance(value, (dict, list))\<close> is false
  for it. \<open>PyObject s r\<close> is any object that \<open>json.dumps\<close> cannot serialise (a set, a
  datetime, a plain object); \<open>s\<close> is what \<open>str\<close> returns for it and \<open>r\<close> what
  \<open>repr\<close> returns. A dict is an association list in insertion order.
\<close>

datatype pyvalue =
    PyNone
  | PyBool bool
  | PyInt int
  | PyStr string
  | PyList "pyvalue list"
  | PyTuple "pyvalue list"
  | PyDict "(string \<times> pyvalue) list"
  | PyObject string string

type_synonym pydict = "(string \<times> pyvalue) list"

text \<open>\<open>d[key] = value\<close>: an existing key keeps its position, a new key goes last.\<close>

fun dict_setitem :: "pydict \<Rightarrow> string \<Rightarrow> pyvalue \<Rightarrow> pydict" where
  "dict_setitem [] key v = [(key, v)]"
| "dict_setitem ((k, x) # d) key v =
     (if k = key then (k, v) # d else (k, x) # dict_setitem d key v)"

fun dict_get :: "pydict \<Rightarrow> string \<Rightarrow> pyvalue option" where
  "dict_get [] key = None"
| "dict_get ((k, x) # d) key = (if k = key then Some x else dict_get d key)"

subsection \<open>\<open>str\<close>, \<open>join\<close> and \<open>json.dumps\<close>\<close>

definition digit_char :: "nat \<Rightarrow> char" where
  "digit_char n = ''0123456789abcdef'' ! n"

definition upper_digit_char :: "nat \<Rightarrow> char" where
  "upper_digit_char n = ''0123456789ABCDEF'' ! n"

text \<open>The decimal digits of a non-negative Python int.\<close>

function str_digits :: "int \<Rightarrow> string" where
  "str_digits n =
     (if n < 10 then [digit_char (nat n)]
      else str_digits (n div 10) @ [digit_char (nat (n mod 10))])"
  by pat_completeness auto
termination
  by (relation "measure nat") auto

declare str_digits.simps [simp del]

text \<open>\<open>str(i)\<close> for a Python int: decimal digits, with a minus sign when negative.\<close>

definition str_int :: "int \<Rightarrow> string" where
  "str_int i = (if i < 0 then CHR ''-'' # str_digits (- i) else str_digits i)"

text \<open>
  The conversion of an int to text, as \<open>str\<close>, \<open>repr\<close>, an f-string and \<open>json.dumps\<close>
  perform it: \<open>ValueError\<close> when the int has more than 4300 digits.
\<close>

definition int_to_str :: "int \<Rightarrow> error + string" where
  "int_to_str i =
     (if 4300 < length (str_digits (abs i)) then Inl ValueError else Inr (str_int i))"

text \<open>\<open>sep.join(xs)\<close>.\<close>

fun join :: "string \<Rightarrow> string list \<Rightarrow> string" where
  "join sep [] = []"
| "join sep [x] = x"
| "join sep (x # y # ys) = x @ sep @ join sep (y # ys)"

text \<open>
  One character of a JSON string under \<open>ensure_ascii=True\<close> (the default of
  \<open>json.dumps\<close>): the quote and the backslash are escaped, the control characters with a
  short form use it, every other character outside \<open>' '..'~'\<close> becomes \<open>\uXXXX\<close> in
  lower-case hexadecimal.
\<close>

definition json_escape_char :: "char \<Rightarrow> string" where
  "json_escape_char c =
     (let n = (of_char c :: nat) in
      if n = 34 then [CHR 0x5C, CHR 0x22]
      else if n = 92 then [CHR 0x5C, CHR 0x5C]
      else if n = 8 then [CHR 0x5C, CHR ''b'']
      else if n = 12 then [CHR 0x5C, CHR ''f'']
      else if n = 10 then [CHR 0x5C, CHR ''n'']
      else if n = 13 then [CHR 0x5C, CHR ''r'']
      else if n = 9 then [CHR 0x5C, CHR ''t'']
      else if 32 \<le> n \<and> n \<le> 126 then [c]
      else [CHR 0x5C, CHR ''u'', CHR ''0'', CHR ''0'', digit_char (n div 16), digit_char (n mod 16)])"

definition json_string :: "string \<Rightarrow> string" where
  "json_string s = [CHR 0x22] @ concat (map json_escape_char s) @ [CHR 0x22]"

text \<open>
  \<open>json.dumps(value, separators=(',', ':'))\<close>: no whitespace after the separators, the
  items of a dict in the dict's own order, a tuple written as an array, \<open>TypeError\<close>
  for a value that is not serialisable.
\<close>

fun json_dumps :: "pyvalue \<Rightarrow> error + string"
  and json_items :: "pyvalue list \<Rightarrow> error + string list"
  and json_pairs :: "(string \<times> pyvalue) list \<Rightarrow> error + string list" where
  "json_dumps PyNone = Inr ''null''"
| "json_dumps (PyBool b) = Inr (if b then ''true'' else ''false'')"
| "json_dumps (PyInt i) = int_to_str i"
| "json_dumps (PyStr s) = Inr (json_string s)"
| "json_dumps (PyList vs) =
     (case json_items vs of Inl e \<Rightarrow> Inl e | Inr ss \<Rightarrow> Inr (''['' @ join '','' ss @ '']''))"
| "json_dumps (PyTuple vs) =
     (case json_items vs of Inl e \<Rightarrow> Inl e | Inr ss \<Rightarrow> Inr (''['' @ join '','' ss @ '']''))"
| "json_dumps (PyDict kvs) =
     (case json_pairs kvs of Inl e \<Rightarrow> Inl e | Inr ss \<Rightarrow> Inr (''{'' @ join '','' ss @ ''}''))"
| "json_dumps (PyObject s r) = Inl TypeError"
| "json_items [] = Inr []"
| "json_items (v # vs) =
     (case json_dumps v of Inl e \<Rightarrow> Inl e
      | Inr s \<Rightarrow> (case json_items vs of Inl e \<Rightarrow> Inl e | Inr ss \<Rightarrow> Inr (s # ss)))"
| "json_pairs [] = Inr []"
| "json_pairs ((k, v) # kvs) =
     (case json_dumps v of Inl e \<Rightarrow> Inl e
      | Inr s \<Rightarrow> (case json_pairs kvs of Inl e \<Rightarrow> Inl e
                 | Inr ss \<Rightarrow> Inr ((json_string k @ '':'' @ s) # ss)))"

subsection \<open>The canonical signing string (\<open>_crypto_data\<close>, lines 75 to 82)\<close>

text \<open>
  \<open>repr\<close> of a string: single quotes, or double quotes when the string holds a single
  quote and no double quote; the backslash and the chosen quote are escaped, tab,
  newline and carriage return have their short forms, and every other character that
  is not printable (0 to 31, 127 to 160, 173) is written \<open>\xNN\<close>.
\<close>

definition py_repr_char :: "char \<Rightarrow> char \<Rightarrow> string" where
  "py_repr_char q c =
     (let n = (of_char c :: nat) in
      if c = q \<or> n = 92 then [CHR 0x5C, c]
      else if n = 9 then [CHR 0x5C, CHR ''t'']
      else if n = 10 then [CHR 0x5C, CHR ''n'']
      else if n = 13 then [CHR 0x5C, CHR ''r'']
      else if n < 32 \<or> (127 \<le> n \<and> n \<le> 160) \<or> n = 173
        then [CHR 0x5C, CHR ''x'', digit_char (n div 16), digit_char (n mod 16)]
      else [c])"

definition py_repr_str :: "string \<Rightarrow> string" where
  "py_repr_str s =
     (let q = (if CHR 0x27 \<in> set s \<and> CHR 0x22 \<notin> set s then CHR 0x22 else CHR 0x27)
      in [q] @ concat (map (py_repr_char q) s) @ [q])"

text \<open>
  \<open>repr(value)\<close>: the items of a list, a tuple or a dict are separated by a comma and
  a space, and a tuple of one item ends with a comma.
\<close>

fun py_repr :: "pyvalue \<Rightarrow> error + string"
  and py_repr_items :: "pyvalue list \<Rightarrow> error + string list"
  and py_repr_pairs :: "(string \<times> pyvalue) list \<Rightarrow> error + string list" where
  "py_repr PyNone = Inr ''None''"
| "py_repr (PyBool b) = Inr (if b then ''True'' else ''False'')"
| "py_repr (PyInt i) = int_to_str i"
| "py_repr (PyStr s) = Inr (py_repr_str s)"
| "py_repr (PyList vs) =
     (case py_repr_items vs of Inl e \<Rightarrow> Inl e | Inr ss \<Rightarrow> Inr (''['' @ join '', '' ss @ '']''))"
| "py_repr (PyTuple vs) =
     (case py_repr_items vs of
        Inl e \<Rightarrow> Inl e
      | Inr ss \<Rightarrow>
          Inr (case ss of [x] \<Rightarrow> ''('' @ x @ '',)'' | _ \<Rightarrow> ''('' @ join '', '' ss @ '')''))"
| "py_repr (PyDict kvs) =
     (case py_repr_pairs kvs of Inl e \<Rightarrow> Inl e | Inr ss \<Rightarrow> Inr (''{'' @ join '', '' ss @ ''}''))"
| "py_repr (PyObject s r) = Inr r"
| "py_repr_items [] = Inr []"
| "py_repr_items (v # vs) =
     (case py_repr v of Inl e \<Rightarrow> Inl e
      | Inr s \<Rightarrow> (case py_repr_items vs of Inl e \<Rightarrow> Inl e | Inr ss \<Rightarrow> Inr (s # ss)))"
| "py_repr_pairs [] = Inr []"
| "py_repr_pairs ((k, v) # kvs) =
     (case py_repr v of Inl e \<Rightarrow> Inl e
      | Inr s \<Rightarrow> (case py_repr_pairs kvs of Inl e \<Rightarrow> Inl e
                 | Inr ss \<Rightarrow> Inr ((py_repr_str k @ '': '' @ s) # ss)))"

text \<open>\<open>str(value)\<close>: a string is itself, an object has its own text, every other value is
  written as \<open>repr\<close> writes it.\<close>

fun py_str :: "pyvalue \<Rightarrow> error + string" where
  "py_str (PyStr s) = Inr s"
| "py_str (PyObject s r) = Inr s"
| "py_str v = py_repr v"

text \<open>\<open>isinstance(value, (dict, list))\<close>.\<close>

fun isinstance_dict_list :: "pyvalue \<Rightarrow> bool" where
  "isinstance_dict_list (PyDict kvs) = True"
| "isinstance_dict_list (PyList vs) = True"
| "isinstance_dict_list v = False"

text \<open>
  The text that the f-string \<open>f"{key}={value}"\<close> on line 80 puts after the equals sign:
  a dict or a list has been replaced by its compact JSON text on line 79, any other
  value is formatted by \<open>str\<close>.
\<close>

definition sign_value :: "pyvalue \<Rightarrow> error + string" where
  "sign_value v = (if isinstance_dict_list v then json_dumps v else py_str v)"

text \<open>The loop over \<open>params.items()\<close>; \<open>parts\<close> is the list built so far.\<close>

fun sign_parts :: "pydict \<Rightarrow> string list \<Rightarrow> error + string list" where
  "sign_parts [] parts = Inr parts"
| "sign_parts ((key, v) # rest) parts =
     (if v \<noteq> PyNone then
        (case sign_value v of
           Inl e \<Rightarrow> Inl e
         | Inr s \<Rightarrow> sign_parts rest (parts @ [key @ ''='' @ s]))
      else sign_parts rest parts)"

text \<open>\<open>sign_str = "&".join(sorted(parts))\<close>.\<close>

definition canonicalize :: "pydict \<Rightarrow> error + string" where
  "canonicalize params =
     (case sign_parts params [] of
        Inl e \<Rightarrow> Inl e
      | Inr parts \<Rightarrow> Inr (join ''&'' (sort parts)))"

subsection \<open>\<open>_pad_pkcs7\<close>\<close>

text \<open>
  \<open>block_size\<close> is a Python int: the remainder by zero raises, \<open>[n] * n\<close> is empty for
  \<open>n \<le> 0\<close>, and \<open>bytes\<close> refuses an element above 255.
\<close>

definition pad_pkcs7 :: "byte list \<Rightarrow> int \<Rightarrow> error + byte list" where
  "pad_pkcs7 data block_size =
     (if block_size = 0 then Inl ZeroDivisionError
      else
        let padding_len = block_size - (int (length data) mod block_size) in
        if padding_len \<le> 0 then Inr data
        else if padding_len > 255 then Inl ValueError
        else Inr (data @ replicate (nat padding_len) (word_of_int padding_len)))"

subsection \<open>\<open>str.encode('utf-8')\<close>, \<open>urllib.parse.quote\<close>, \<open>hexdigest\<close>\<close>

definition utf8_char :: "char \<Rightarrow> byte list" where
  "utf8_char c =
     (let n = (of_char c :: nat) in
      if n < 128 then [of_nat n] else [of_nat (192 + n div 64), of_nat (128 + n mod 64)])"

definition utf8_encode :: "string \<Rightarrow> byte list" where
  "utf8_encode s = concat (map utf8_char s)"

text \<open>\<open>quote(s, safe='')\<close> keeps letters, digits and \<open>_.-~\<close>; any other character is
  replaced by \<open>%XX\<close> (upper-case hexadecimal) for each byte of its UTF-8 form.\<close>

definition always_safe :: "char \<Rightarrow> bool" where
  "always_safe c \<longleftrightarrow>
     c \<in> set ''ABCDEFGHIJKLMNOPQRSTUVWXYZabcdefghijklmnopqrstuvwxyz0123456789_.-~''"

definition quote_byte :: "byte \<Rightarrow> string" where
  "quote_byte b = [CHR ''%'', upper_digit_char (unat b div 16), upper_digit_char (unat b mod 16)]"

definition quote :: "string \<Rightarrow> string" where
  "quote s = concat (map (\<lambda>c. if always_safe c then [c] else concat (map quote_byte (utf8_char c))) s)"

definition hex_byte :: "byte \<Rightarrow> string" where
  "hex_byte b = [digit_char (unat b div 16), digit_char (unat b mod 16)]"

definition hexdigest :: "byte list \<Rightarrow> string" where
  "hexdigest bs = concat (map hex_byte bs)"

subsection \<open>\<open>hmac.new(key, msg, hashlib.md5)\<close>\<close>

text \<open>
  HMAC over a hash function \<open>H\<close> with a 64-byte block, as \<open>hmac\<close> computes it for MD5:
  a key longer than the block is hashed first, the key is filled with zero bytes to the
  block size, and the inner and outer pads are 0x36 and 0x5C.
\<close>

definition hmac_digest :: "(byte list \<Rightarrow> byte list) \<Rightarrow> byte list \<Rightarrow> byte list \<Rightarrow> byte list" where
  "hmac_digest H key msg =
     (let k0 = (if length key > 64 then H key else key);
          k = k0 @ replicate (64 - length k0) 0
      in H (map (\<lambda>b. b XOR 0x5C) k @ H (map (\<lambda>b. b XOR 0x36) k @ msg)))"

subsection \<open>\<open>base64.b64encode\<close>\<close>

definition b64char :: "nat \<Rightarrow> char" where
  "b64char n = ''ABCDEFGHIJKLMNOPQRSTUVWXYZabcdefghijklmnopqrstuvwxyz0123456789+/'' ! n"

text \<open>Three bytes give four 6-bit digits; a last group of one or two bytes is filled
  with zero bits and marked by \<open>=\<close> signs.\<close>

fun b64encode :: "byte list \<Rightarrow> string" where
  "b64encode (a # b # c # rest) =
     b64char (unat a div 4) # b64char (unat a mod 4 * 16 + unat b div 16)
       # b64char (unat b mod 16 * 4 + unat c div 64) # b64char (unat c mod 64)
       # b64encode rest"
| "b64encode [a, b] =
     [b64char (unat a div 4), b64char (unat a mod 4 * 16 + unat b div 16),
      b64char (unat b mod 16 * 4), CHR ''='']"
| "b64encode [a] = [b64char (unat a div 4), b64char (unat a mod 4 * 16), CHR ''='', CHR ''='']"
| "b64encode [] = []"

subsection \<open>AES in CBC mode\<close>

text \<open>
  \<open>AES.new(key, AES.MODE_CBC, iv)\<close> followed by \<open>encrypt\<close>: the data is cut into 16-byte
  blocks, each block is XORed with the previous ciphertext block (the IV for the first)
  and passed through the block cipher \<open>E\<close> under the key.
\<close>

fun blocks16 :: "byte list \<Rightarrow> byte list list" where
  "blocks16 bs = (if bs = [] then [] else take 16 bs # blocks16 (drop 16 bs))"

declare blocks16.simps [simp del]

definition xor_block :: "byte list \<Rightarrow> byte list \<Rightarrow> byte list" where
  "xor_block a b = map2 (XOR) a b"

fun cbc_chain :: "(byte list \<Rightarrow> byte list) \<Rightarrow> byte list \<Rightarrow> byte list list \<Rightarrow> byte list list" where
  "cbc_chain E prev [] = []"
| "cbc_chain E prev (b # bs) = (let c = E (xor_block b prev) in c # cbc_chain E c bs)"

definition cbc_encrypt ::
  "(byte list \<Rightarrow> byte list \<Rightarrow> byte list) \<Rightarrow> byte list \<Rightarrow> byte list \<Rightarrow> byte list \<Rightarrow> byte list" where
  "cbc_encrypt E key iv data = concat (cbc_chain (E key) iv (blocks16 data))"

subsection \<open>The receiving side\<close>

text \<open>
  The inverse operations that the remote service applies to an envelope. The client
  never calls them; they are here to state what an envelope decodes to.
\<close>

fun index_of :: "'a \<Rightarrow> 'a list \<Rightarrow> nat option" where
  "index_of x [] = None"
| "index_of x (y # ys) = (if x = y then Some 0 else map_option Suc (index_of x ys))"

definition b64index :: "char \<Rightarrow> nat option" where
  "b64index c =
     index_of c ''ABCDEFGHIJKLMNOPQRSTUVWXYZabcdefghijklmnopqrstuvwxyz0123456789+/''"

fun b64decode :: "string \<Rightarrow> byte list option" where
  "b64decode (c1 # c2 # c3 # c4 # rest) =
     (case (b64index c1, b64index c2) of
        (Some x1, Some x2) \<Rightarrow>
          if rest = [] \<and> c3 = CHR ''='' \<and> c4 = CHR ''=''
          then Some [of_nat (x1 * 4 + x2 div 16)]
          else (case b64index c3 of
                  None \<Rightarrow> None
                | Some x3 \<Rightarrow>
                    if rest = [] \<and> c4 = CHR ''=''
                    then Some [of_nat (x1 * 4 + x2 div 16), of_nat (x2 mod 16 * 16 + x3 div 4)]
                    else (case b64index c4 of
                            None \<Rightarrow> None
                          | Some x4 \<Rightarrow>
                              (case b64decode rest of
                                 None \<Rightarrow> None
                               | Some bs \<Rightarrow>
                                   Some (of_nat (x1 * 4 + x2 div 16)
                                         # of_nat (x2 mod 16 * 16 + x3 div 4)
                                         # of_nat (x3 mod 4 * 64 + x4) # bs))))
      | _ \<Rightarrow> None)"
| "b64decode [] = Some []"
| "b64decode _ = None"

fun cbc_unchain :: "(byte list \<Rightarrow> byte list) \<Rightarrow> byte list \<Rightarrow> byte list list \<Rightarrow> byte list list" where
  "cbc_unchain D prev [] = []"
| "cbc_unchain D prev (c # cs) = xor_block (D c) prev # cbc_unchain D c cs"

definition cbc_decrypt ::
  "(byte list \<Rightarrow> byte list \<Rightarrow> byte list) \<Rightarrow> byte list \<Rightarrow> byte list \<Rightarrow> byte list \<Rightarrow> byte list" where
  "cbc_decrypt D key iv data = concat (cbc_unchain (D key) iv (blocks16 data))"

subsection \<open>The class constants\<close>

definition SECRET :: string where
  "SECRET = ''c274fc67-19f9-47ba-bb84-585a2e3a1f6a''"

definition PUB_KEY :: string where
  "PUB_KEY =
     ''-----BEGIN PUBLIC KEY-----'' @ [CHR 0x0A] @
     ''MIGfMA0GCSqGSIb3DQEBAQUAA4GNADCBiQKBgQDuAiqDmvn9Rf15o21qkDxN0rUf'' @ [CHR 0x0A] @
     ''ZsX6rVBrtfgY6tamN2Yn+1D3eHZJuKNlucyqeBr6nmfN2srYAX+oyCXr5vWwFclj'' @ [CHR 0x0A] @
     ''PuWh8aSASqyk7MfbAv5Q4VqYS7lsYUQRdw4plZG0NASDeBvHWi3lsHjGfNb7iUvg'' @ [CHR 0x0A] @
     ''rk312EDfBHtRgDvB0QIDAQAB'' @ [CHR 0x0A] @
     ''-----END PUBLIC KEY-----''"

definition APP_ID :: string where
  "APP_ID = ''API_AUTH_WEB''"

definition HOST :: string where
  "HOST = ''https://mid.huaruntong.cn''"

subsection \<open>The world outside the function\<close>

text \<open>
  Every call that leaves the function (the clock, the random source, the cryptographic
  library, the HTTP transport) is recorded in a trace, in the order of the calls.
\<close>

datatype event =
    ClockRead int
  | HmacMd5 "byte list" "byte list"
  | Urandom "byte list"
  | AesNew "byte list" "byte list"
  | AesEncrypt "byte list"
  | RsaImportKey string
  | OaepNew
  | OaepEncrypt "byte list"
  | HttpPost string pydict "(string \<times> string) list"

text \<open>
  Dicts are mutable objects: a dict is referred to by its address and \<open>heap\<close> gives its
  current contents. \<open>clock_ms n\<close> is the value of \<open>int(time.time() * 1000)\<close> at the
  \<open>n\<close>-th reading of the clock, \<open>entropy\<close> is the byte sequence that the operating
  system's random source hands out, and \<open>network\<close> is the answer of the transport to a
  POST: the parsed JSON body, or the text of a \<open>RequestException\<close>.
\<close>

record world =
  heap :: "nat \<Rightarrow> pydict"
  next_ref :: nat
  clock_ms :: "nat \<Rightarrow> int"
  clock_reads :: nat
  entropy :: "nat \<Rightarrow> byte"
  entropy_used :: nat
  network :: "string \<Rightarrow> pydict \<Rightarrow> (string \<times> string) list \<Rightarrow> string + pyvalue"
  trace :: "event list"

text \<open>
  The primitives of the cryptographic library: the MD5 digest, the AES block cipher
  (key, block), the PEM import of an RSA key (\<open>None\<close> when the text is malformed) and
  RSA-OAEP encryption (key, random seed, message; \<open>None\<close> when it raises).
\<close>

record 'pk crypto_lib =
  md5 :: "byte list \<Rightarrow> byte list"
  aes_encrypt_block :: "byte list \<Rightarrow> byte list \<Rightarrow> byte list"
  rsa_import_key :: "string \<Rightarrow> 'pk option"
  oaep_encrypt :: "'pk \<Rightarrow> byte list \<Rightarrow> byte list \<Rightarrow> byte list option"

definition log_event :: "event \<Rightarrow> world \<Rightarrow> world" where
  "log_event e w = w\<lparr>trace := trace w @ [e]\<rparr>"

text \<open>\<open>params[key] = value\<close> on the dict at address \<open>r\<close>.\<close>

definition setitem :: "nat \<Rightarrow> string \<Rightarrow> pyvalue \<Rightarrow> world \<Rightarrow> world" where
  "setitem r k v w = w\<lparr>heap := (heap w)(r := dict_setitem (heap w r) k v)\<rparr>"

text \<open>A dict display \<open>{...}\<close> and \<open>payload.copy()\<close> both allocate a new dict.\<close>

definition new_dict :: "pydict \<Rightarrow> world \<Rightarrow> nat \<times> world" where
  "new_dict d w = (next_ref w, w\<lparr>heap := (heap w)(next_ref w := d), next_ref := Suc (next_ref w)\<rparr>)"

definition dict_copy :: "nat \<Rightarrow> world \<Rightarrow> nat \<times> world" where
  "dict_copy r w = new_dict (heap w r) w"

text \<open>\<open>int(time.time() * 1000)\<close>.\<close>

definition time_ms :: "world \<Rightarrow> int \<times> world" where
  "time_ms w =
     (let t = clock_ms w (clock_reads w)
      in (t, log_event (ClockRead t) (w\<lparr>clock_reads := Suc (clock_reads w)\<rparr>)))"

definition take_entropy :: "nat \<Rightarrow> world \<Rightarrow> byte list \<times> world" where
  "take_entropy n w =
     (map (entropy w) [entropy_used w ..< entropy_used w + n],
      w\<lparr>entropy_used := entropy_used w + n\<rparr>)"

text \<open>\<open>os.urandom(n)\<close>.\<close>

definition urandom :: "nat \<Rightarrow> world \<Rightarrow> byte list \<times> world" where
  "urandom n w = (case take_entropy n w of (bs, w') \<Rightarrow> (bs, log_event (Urandom bs) w'))"

text \<open>\<open>hmac.new(key, msg, hashlib.md5).hexdigest()\<close>.\<close>

definition hmac_md5_hexdigest ::
  "'pk crypto_lib \<Rightarrow> byte list \<Rightarrow> byte list \<Rightarrow> world \<Rightarrow> string \<times> world" where
  "hmac_md5_hexdigest L key msg w =
     (hexdigest (hmac_digest (md5 L) key msg), log_event (HmacMd5 key msg) w)"

text \<open>
  \<open>AES.new(key, AES.MODE_CBC, iv)\<close> raises \<open>ValueError\<close> for a key that is not 16, 24 or
  32 bytes long and for an IV that is not 16 bytes long; the cipher object keeps the key
  and the IV. \<open>encrypt\<close> raises \<open>ValueError\<close> when the data is not block-aligned.
\<close>

definition aes_new :: "byte list \<Rightarrow> byte list \<Rightarrow> world \<Rightarrow> (error + byte list \<times> byte list) \<times> world" where
  "aes_new key iv w =
     (if length key \<in> {16, 24, 32} \<and> length iv = 16
      then (Inr (key, iv), log_event (AesNew key iv) w)
      else (Inl ValueError, log_event (AesNew key iv) w))"

definition cipher_encrypt ::
  "'pk crypto_lib \<Rightarrow> byte list \<times> byte list \<Rightarrow> byte list \<Rightarrow> world \<Rightarrow> (error + byte list) \<times> world" where
  "cipher_encrypt L cipher data w =
     (if length data mod 16 = 0
      then (Inr (cbc_encrypt (aes_encrypt_block L) (fst cipher) (snd cipher) data),
            log_event (AesEncrypt data) w)
      else (Inl ValueError, log_event (AesEncrypt data) w))"

text \<open>\<open>RSA.import_key(pem)\<close>.\<close>

definition import_key :: "'pk crypto_lib \<Rightarrow> string \<Rightarrow> world \<Rightarrow> (error + 'pk) \<times> world" where
  "import_key L pem w =
     (case rsa_import_key L pem of
        None \<Rightarrow> (Inl ValueError, log_event (RsaImportKey pem) w)
      | Some k \<Rightarrow> (Inr k, log_event (RsaImportKey pem) w))"

text \<open>
  \<open>PKCS1_OAEP.new(rsa_key).encrypt(message)\<close>: the cipher draws the 20-byte seed of the
  padding (the length of its default hash, SHA-1) from the random source.
\<close>

definition oaep_cipher_encrypt ::
  "'pk crypto_lib \<Rightarrow> 'pk \<Rightarrow> byte list \<Rightarrow> world \<Rightarrow> (error + byte list) \<times> world" where
  "oaep_cipher_encrypt L rsa_key message w =
     (case take_entropy 20 w of
        (seed, w') \<Rightarrow>
          (case oaep_encrypt L rsa_key seed message of
             None \<Rightarrow> (Inl ValueError, log_event (OaepEncrypt message) w')
           | Some ct \<Rightarrow> (Inr ct, log_event (OaepEncrypt message) w')))"

subsection \<open>\<open>HuaRunTongAPI\<close>\<close>

record api =
  token :: string
  answer_result :: int
  channel_id :: string
  merchant_code :: string
  store_code :: string
  sys_id :: string
  transaction_uuid :: string
  invite_code :: string
  user_agent :: string

text \<open>\<open>__init__\<close>: \<open>user_agent or "..."\<close> replaces \<open>None\<close> and the empty string.\<close>

definition init ::
  "string \<Rightarrow> int \<Rightarrow> string \<Rightarrow> string \<Rightarrow> string \<Rightarrow> string \<Rightarrow> string \<Rightarrow> string \<Rightarrow> string option \<Rightarrow> api" where
  "init tok ar ch mc sc sy tu ic ua =
     \<lparr>token = tok, answer_result = ar, channel_id = ch, merchant_code = mc, store_code = sc,
      sys_id = sy, transaction_uuid = tu, invite_code = ic,
      user_agent =
        (case ua of
           Some s \<Rightarrow>
             if s \<noteq> [] then s
             else ''Mozilla/5.0 (iPhone; CPU iPhone OS 16_6 like Mac OS X) AppleWebKit/605.1.15 (KHTML, like Gecko) Version/16.6 Mobile/15E148 Safari/604.1''
         | None \<Rightarrow> ''Mozilla/5.0 (iPhone; CPU iPhone OS 16_6 like Mac OS X) AppleWebKit/605.1.15 (KHTML, like Gecko) Version/16.6 Mobile/15E148 Safari/604.1'')\<rparr>"

text \<open>\<open>_generate_aes_key\<close>.\<close>

definition generate_aes_key :: "world \<Rightarrow> byte list \<times> world" where
  "generate_aes_key w = urandom 16 w"

text \<open>
  \<open>_crypto_data(params, api_path)\<close>. \<open>params\<close> is the address of the dict, which the
  function changes in place. An exception leaves the function at the call that raises it.
\<close>

definition crypto_data ::
  "'pk crypto_lib \<Rightarrow> nat \<Rightarrow> string \<Rightarrow> world \<Rightarrow> (error + pydict) \<times> world" where
  "crypto_data L params api_path w0 =
     (let w1 = setitem params ''apiPath'' (PyStr (quote api_path)) w0;
          w2 = setitem params ''appId'' (PyStr APP_ID) w1
      in (case time_ms w2 of
        (t, w3) \<Rightarrow>
          (let w4 = setitem params ''timestamp'' (PyInt t) w3
           in (case canonicalize (heap w4 params) of
             Inl e \<Rightarrow> (Inl e, w4)
           | Inr sign_str \<Rightarrow>
               (case hmac_md5_hexdigest L (utf8_encode SECRET) (utf8_encode sign_str) w4 of
                 (signature, w5) \<Rightarrow>
                   (let w6 = setitem params ''signature'' (PyStr signature) w5
                    in (case generate_aes_key w6 of
                      (aes_key, w7) \<Rightarrow>
                        (let iv = replicate 16 0
                         in (case aes_new aes_key iv w7 of
                           (Inl e, w8) \<Rightarrow> (Inl e, w8)
                         | (Inr cipher_aes, w8) \<Rightarrow>
                             (case json_dumps (PyDict (heap w8 params)) of
                               Inl e \<Rightarrow> (Inl e, w8)
                             | Inr text \<Rightarrow>
                                 (let plaintext = utf8_encode text
                                  in (case pad_pkcs7 plaintext 16 of
                                    Inl e \<Rightarrow> (Inl e, w8)
                                  | Inr padded \<Rightarrow>
                                      (case cipher_encrypt L cipher_aes padded w8 of
                                        (Inl e, w9) \<Rightarrow> (Inl e, w9)
                                      | (Inr encrypted_data, w9) \<Rightarrow>
                                          (let data_b64 = b64encode encrypted_data
                                           in (case import_key L PUB_KEY w9 of
                                             (Inl e, w10) \<Rightarrow> (Inl e, w10)
                                           | (Inr rsa_key, w10) \<Rightarrow>
                                               (let w11 = log_event OaepNew w10
                                                in (case oaep_cipher_encrypt L rsa_key aes_key w11 of
                                                  (Inl e, w12) \<Rightarrow> (Inl e, w12)
                                                | (Inr encrypted_key, w12) \<Rightarrow>
                                                    (let key_b64 = b64encode encrypted_key
                                                     in (Inr [(''key'', PyStr key_b64),
                                                              (''data'', PyStr data_b64)],
                                                         w12)))))))))))))))))))"

text \<open>
  Names for the values that \<open>_crypto_data\<close> computes on the way: the dict after lines
  70 to 72 (\<open>t\<close> is the reading of the clock), the signature of lines 83 to 87 for a
  signing string, and the dict after line 88.
\<close>

definition assembled_params :: "pydict \<Rightarrow> string \<Rightarrow> int \<Rightarrow> pydict" where
  "assembled_params d api_path t =
     dict_setitem
       (dict_setitem (dict_setitem d ''apiPath'' (PyStr (quote api_path))) ''appId'' (PyStr APP_ID))
       ''timestamp'' (PyInt t)"

definition signature_of :: "'pk crypto_lib \<Rightarrow> string \<Rightarrow> string" where
  "signature_of L sign_str =
     hexdigest (hmac_digest (md5 L) (utf8_encode SECRET) (utf8_encode sign_str))"

definition signed_params :: "'pk crypto_lib \<Rightarrow> pydict \<Rightarrow> string \<Rightarrow> int \<Rightarrow> string \<Rightarrow> pydict" where
  "signed_params L d api_path t sign_str =
     dict_setitem (assembled_params d api_path t) ''signature'' (PyStr (signature_of L sign_str))"

text \<open>\<open>_get_headers\<close>.\<close>

definition get_headers :: "api \<Rightarrow> (string \<times> string) list" where
  "get_headers self =
     [(''User-Agent'', user_agent self),
      (''Accept'', ''application/json, text/plain, */*''),
      (''Content-Type'', ''application/json;charset=UTF-8''),
      (''X-HRT-MID-NEWRISK'', ''newRisk''),
      (''X-Hrt-Mid-Appid'', APP_ID),
      (''Origin'', ''https://cloud.huaruntong.cn''),
      (''Referer'', ''https://cloud.huaruntong.cn/'')]"

text \<open>
  \<open>_send_request(api_path, payload)\<close>. The call of \<open>_crypto_data\<close> is outside the
  \<open>try\<close>, so its exception propagates; a \<open>RequestException\<close> of the transport becomes
  the dict with \<open>success\<close> and \<open>error\<close>.
\<close>

definition send_request ::
  "'pk crypto_lib \<Rightarrow> api \<Rightarrow> string \<Rightarrow> nat \<Rightarrow> world \<Rightarrow> (error + pyvalue) \<times> world" where
  "send_request L self api_path payload w0 =
     (let url = HOST @ api_path
      in (case dict_copy payload w0 of
        (copied, w1) \<Rightarrow>
          (case crypto_data L copied api_path w1 of
            (Inl e, w2) \<Rightarrow> (Inl e, w2)
          | (Inr encrypted, w2) \<Rightarrow>
              (let w3 = log_event (HttpPost url encrypted (get_headers self)) w2
               in (case network w3 url encrypted (get_headers self) of
                 Inr resp \<Rightarrow> (Inr resp, w3)
               | Inl e \<Rightarrow>
                   (Inr (PyDict [(''success'', PyBool False), (''error'', PyStr e)]), w3))))))"

text \<open>\<open>sign_in\<close>. The result carries the address of the payload dict as well, so that
  the dict can be inspected after the call.\<close>

definition sign_in ::
  "'pk crypto_lib \<Rightarrow> api \<Rightarrow> world \<Rightarrow> nat \<times> (error + pyvalue) \<times> world" where
  "sign_in L self w0 =
     (case new_dict
        [(''answerResult'', PyInt (answer_result self)),
         (''channelId'', PyStr (channel_id self)),
         (''merchantCode'', PyStr (merchant_code self)),
         (''storeCode'', PyStr (store_code self)),
         (''sysId'', PyStr (sys_id self)),
         (''transactionUuid'', PyStr (transaction_uuid self)),
         (''inviteCode'', PyStr (invite_code self)),
         (''token'', PyStr (token self))] w0 of
        (payload, w1) \<Rightarrow>
          let api_path = ''/api/points/saveQuestionSignin''
          in (payload, send_request L self api_path payload w1))"

subsection \<open>Values without over-long ints\<close>

text \<open>
  No int of more than 4300 digits occurs in a value, at any depth: converting such a
  value to text does not raise \<open>ValueError\<close>.
\<close>

fun ints_within_limit :: "pyvalue \<Rightarrow> bool"
  and ints_within_limit_items :: "pyvalue list \<Rightarrow> bool"
  and ints_within_limit_pairs :: "(string \<times> pyvalue) list \<Rightarrow> bool" where
  "ints_within_limit (PyInt i) = (length (str_digits (abs i)) \<le> 4300)"
| "ints_within_limit (PyList vs) = ints_within_limit_items vs"
| "ints_within_limit (PyTuple vs) = ints_within_limit_items vs"
| "ints_within_limit (PyDict kvs) = ints_within_limit_pairs kvs"
| "ints_within_limit PyNone = True"
| "ints_within_limit (PyBool b) = True"
| "ints_within_limit (PyStr s) = True"
| "ints_within_limit (PyObject s r) = True"
| "ints_within_limit_items [] = True"
| "ints_within_limit_items (v # vs) = (ints_within_limit v \<and> ints_within_limit_items vs)"
| "ints_within_limit_pairs [] = True"
| "ints_within_limit_pairs ((k, v) # kvs) = (ints_within_limit v \<and> ints_within_limit_pairs kvs)"

subsection \<open>Concrete inputs for evaluation\<close>

text \<open>
  A library instance with stand-ins for the primitives (the digest is the byte sum and
  the length of the message, the block cipher reverses the block and XORs it with the
  key, its inverse undoes that), and a world with a fixed
  clock and a counting random source. Address 0 holds a dict with a null entry,
  address 1 a dict with a value that is not serialisable at the top level, address 2
  one with such a value inside a list, address 3 a dict whose null entry has the key
  \<open>signature\<close>. The client object is built with the default arguments of \<open>__init__\<close>.
\<close>

definition toy_encrypt_block :: "byte list \<Rightarrow> byte list \<Rightarrow> byte list" where
  "toy_encrypt_block k b = xor_block (rev b) k"

definition toy_decrypt_block :: "byte list \<Rightarrow> byte list \<Rightarrow> byte list" where
  "toy_decrypt_block k c = rev (xor_block c k)"

definition toy_lib :: "unit crypto_lib" where
  "toy_lib =
     \<lparr>md5 = (\<lambda>bs. replicate 14 0 @ [sum_list bs, of_nat (length bs)]),
      aes_encrypt_block = toy_encrypt_block,
      rsa_import_key = (\<lambda>pem. Some ()),
      oaep_encrypt = (\<lambda>k seed m. Some (seed @ m))\<rparr>"

definition example_heap :: "nat \<Rightarrow> pydict" where
  "example_heap r =
     (if r = 0 then [(''answerResult'', PyInt 1), (''channelId'', PyStr ''APP''), (''inviteCode'', PyNone)]
      else if r = 1 then [(''when'', PyObject ''2024-01-01'' ''datetime.date(2024, 1, 1)'')]
      else if r = 2 then [(''tags'', PyList [PyObject ''2024-01-01'' ''datetime.date(2024, 1, 1)''])]
      else if r = 3 then [(''signature'', PyNone)]
      else [])"

definition example_api :: api where
  "example_api =
     init ''token'' 1 ''APP'' ''1641000001532'' ''qiandaosonjifen'' ''T0000001'' [] [] None"

definition example_world :: world where
  "example_world =
     \<lparr>heap = example_heap, next_ref = 4,
      clock_ms = (\<lambda>n. 1700000000000 + int n), clock_reads = 0,
      entropy = (\<lambda>n. of_nat n), entropy_used = 0,
      network = (\<lambda>url body headers. Inr (PyDict [(''success'', PyBool True)])),
      trace = []\<rparr>"

section \<open>Properties\<close>

subsection \<open>The signing string\<close>

lemma json_err_limit:
  "ints_within_limit v \<Longrightarrow> json_dumps v = Inl e \<Longrightarrow> e = TypeError"
  "ints_within_limit_items vs \<Longrightarrow> json_items vs = Inl e \<Longrightarrow> e = TypeError"
  "ints_within_limit_pairs kvs \<Longrightarrow> json_pairs kvs = Inl e \<Longrightarrow> e = TypeError"
  by (induction v and vs and kvs rule: json_dumps_json_items_json_pairs.induct)
     (auto simp: int_to_str_def split: sum.splits if_splits)

lemma py_repr_ok:
  "ints_within_limit v \<Longrightarrow> \<exists>s. py_repr v = Inr s"
  "ints_within_limit_items vs \<Longrightarrow> \<exists>ss. py_repr_items vs = Inr ss"
  "ints_within_limit_pairs kvs \<Longrightarrow> \<exists>ss. py_repr_pairs kvs = Inr ss"
  by (induction v and vs and kvs rule: py_repr_py_repr_items_py_repr_pairs.induct)
     (auto simp: int_to_str_def split: sum.splits)

lemma ints_within_limit_pairs_iff:
  "ints_within_limit_pairs kvs \<longleftrightarrow> (\<forall>(k, v) \<in> set kvs. ints_within_limit v)"
  by (induction kvs) auto

lemma sign_value_kind:
  "sign_value v = Inr t \<longleftrightarrow>
     (case v of
        PyDict kvs \<Rightarrow> json_dumps v = Inr t
      | PyList vs \<Rightarrow> json_dumps v = Inr t
      | PyTuple vs \<Rightarrow> py_repr v = Inr t
      | PyStr x \<Rightarrow> t = x
      | PyInt i \<Rightarrow> length (str_digits (abs i)) \<le> 4300 \<and> t = str_int i
      | PyBool b \<Rightarrow> t = (if b then ''True'' else ''False'')
      | PyObject x r \<Rightarrow> t = x
      | PyNone \<Rightarrow> t = ''None'')"
  by (cases v) (auto simp: sign_value_def int_to_str_def)

lemma sign_value_ok:
  assumes "ints_within_limit v" and "isinstance_dict_list v \<longrightarrow> \<not> isl (json_dumps v)"
  shows "\<exists>s. sign_value v = Inr s"
proof (cases "isinstance_dict_list v")
  case True
  with assms(2) show ?thesis
    by (cases "json_dumps v") (auto simp: sign_value_def)
next
  case False
  from py_repr_ok(1) [OF assms(1)] obtain s where "py_repr v = Inr s" ..
  with False show ?thesis
    by (cases v) (auto simp: sign_value_def)
qed

lemma sign_value_err_limit:
  assumes "ints_within_limit v" and "sign_value v = Inl e"
  shows "e = TypeError"
proof (cases "isinstance_dict_list v")
  case True
  with assms show ?thesis by (auto simp: sign_value_def dest: json_err_limit(1))
next
  case False
  with sign_value_ok [OF assms(1)] assms(2) show ?thesis by auto
qed

lemma sign_parts_acc:
  "sign_parts ps acc = (case sign_parts ps [] of Inl e \<Rightarrow> Inl e | Inr xs \<Rightarrow> Inr (acc @ xs))"
proof (induction ps arbitrary: acc)
  case Nil
  then show ?case by simp
next
  case (Cons p ps)
  obtain k v where p: "p = (k, v)" by (cases p)
  have IH1: "\<And>a. sign_parts ps a = (case sign_parts ps [] of Inl e \<Rightarrow> Inl e | Inr xs \<Rightarrow> Inr (a @ xs))"
    by (rule Cons.IH)
  show ?case
  proof (cases "v = PyNone")
    case True
    then show ?thesis using IH1 [of acc] by (simp add: p)
  next
    case False
    show ?thesis
    proof (cases "sign_value v")
      case (Inl e)
      then show ?thesis using False by (simp add: p)
    next
      case (Inr s)
      show ?thesis
        using False Inr IH1 [of "acc @ [k @ ''='' @ s]"] IH1 [of "[k @ ''='' @ s]"]
        by (simp add: p split: sum.splits)
    qed
  qed
qed

lemma sign_parts_err_limit:
  "\<forall>(k, v) \<in> set ps. ints_within_limit v \<Longrightarrow> sign_parts ps acc = Inl e \<Longrightarrow> e = TypeError"
  by (induction ps acc rule: sign_parts.induct)
     (auto split: if_splits sum.splits dest: sign_value_err_limit)

lemma sign_parts_Inr_iff:
  "sign_parts ps [] = Inr parts \<longleftrightarrow>
     list_all2 (\<lambda>(k, v) p. \<exists>t. sign_value v = Inr t \<and> p = k @ ''='' @ t)
       (filter (\<lambda>(k, v). v \<noteq> PyNone) ps) parts"
proof (induction ps arbitrary: parts)
  case Nil
  show ?case by auto
next
  case (Cons p ps)
  obtain k v where p: "p = (k, v)" by (cases p)
  show ?case
  proof (cases "v = PyNone")
    case True
    then show ?thesis using Cons.IH by (simp add: p)
  next
    case False
    show ?thesis
    proof (cases "sign_value v")
      case (Inl e)
      then show ?thesis using False by (simp add: p list_all2_Cons1)
    next
      case (Inr s)
      have h: "sign_parts (p # ps) [] =
          (case sign_parts ps [] of Inl e \<Rightarrow> Inl e | Inr xs \<Rightarrow> Inr ((k @ ''='' @ s) # xs))"
        using False Inr sign_parts_acc [of ps "[k @ ''='' @ s]"] by (simp add: p split: sum.splits)
      have "list_all2 (\<lambda>(k, v) p. \<exists>t. sign_value v = Inr t \<and> p = k @ ''='' @ t)
              (filter (\<lambda>(k, v). v \<noteq> PyNone) (p # ps)) parts
            \<longleftrightarrow> (\<exists>ys. parts = (k @ ''='' @ s) # ys
                    \<and> list_all2 (\<lambda>(k, v) p. \<exists>t. sign_value v = Inr t \<and> p = k @ ''='' @ t)
                         (filter (\<lambda>(k, v). v \<noteq> PyNone) ps) ys)"
        using False Inr by (simp add: p list_all2_Cons1)
      also have "\<dots> \<longleftrightarrow> (\<exists>ys. parts = (k @ ''='' @ s) # ys \<and> sign_parts ps [] = Inr ys)"
        using Cons.IH by simp
      also have "\<dots> \<longleftrightarrow> sign_parts (p # ps) [] = Inr parts"
        unfolding h by (cases "sign_parts ps []") auto
      finally show ?thesis by simp
    qed
  qed
qed

lemma canonicalize_Inr_iff:
  "canonicalize ps = Inr s \<longleftrightarrow>
     (\<exists>parts. list_all2 (\<lambda>(k, v) p. \<exists>t. sign_value v = Inr t \<and> p = k @ ''='' @ t)
                (filter (\<lambda>(k, v). v \<noteq> PyNone) ps) parts
            \<and> s = join ''&'' (sort parts))"
  unfolding canonicalize_def sign_parts_Inr_iff [symmetric]
  by (auto split: sum.splits)

lemma canonicalize_err_limit:
  "\<forall>(k, v) \<in> set ps. ints_within_limit v \<Longrightarrow> canonicalize ps = Inl e \<Longrightarrow> e = TypeError"
  unfolding canonicalize_def by (auto split: sum.splits dest: sign_parts_err_limit)

lemma canonicalize_perm_Inr:
  assumes "mset ps = mset qs" and "canonicalize ps = Inr s"
  shows "canonicalize qs = Inr s"
proof -
  let ?R = "\<lambda>(k, v) p. \<exists>t. sign_value v = Inr t \<and> p = k @ ''='' @ t"
  let ?P = "\<lambda>(k, v). v \<noteq> PyNone"
  from assms(2) obtain parts where
    r: "list_all2 ?R (filter ?P ps) parts" and s: "s = join ''&'' (sort parts)"
    unfolding canonicalize_Inr_iff by blast
  have "mset (filter ?P qs) = mset (filter ?P ps)"
    using assms(1) by (simp only: mset_filter)
  from list_all2_reorder_left_invariance [OF r this]
  obtain parts' where r': "list_all2 ?R (filter ?P qs) parts'" and m: "mset parts' = mset parts"
    by blast
  have "sort parts' = sort parts"
    using m by (metis properties_for_sort mset_sort sorted_sort)
  with r' s show ?thesis
    unfolding canonicalize_Inr_iff by auto
qed

lemma canonicalize_perm_limit:
  assumes "mset ps = mset qs" and "\<forall>(k, v) \<in> set ps. ints_within_limit v"
  shows "canonicalize ps = canonicalize qs"
proof -
  have q: "\<forall>(k, v) \<in> set qs. ints_within_limit v"
    using assms(2) mset_eq_setD [OF assms(1)] by simp
  show ?thesis
  proof (cases "canonicalize ps")
    case (Inr s)
    with canonicalize_perm_Inr [OF assms(1)] show ?thesis by simp
  next
    case (Inl e)
    have "canonicalize qs \<noteq> Inr s" for s
      using canonicalize_perm_Inr [OF assms(1) [symmetric], of s] Inl by auto
    then obtain e' where e': "canonicalize qs = Inl e'"
      by (cases "canonicalize qs") auto
    from canonicalize_err_limit [OF assms(2) Inl] canonicalize_err_limit [OF q e'] Inl e'
    show ?thesis by simp
  qed
qed

text \<open>
  Claim C1, as amended. For every parameter dict the signing string is obtained by
  writing each entry whose value is not \<open>None\<close> as \<open>key=value\<close>, sorting these strings
  as whole strings and joining them with \<open>&\<close>. The value is written as its compact JSON
  text when it is a dict or a list; a string is written as it is, an int in decimal, a
  bool as \<open>True\<close> or \<open>False\<close>, an object as \<open>str\<close> gives it, and a tuple as \<open>repr\<close>
  gives it, with a space after each comma. The signing string does not depend on the
  order of the entries: two dicts with the same entries in any order have the same
  signing string, and when no int is over-long the two runs agree in their error as
  well. Both orders of \<open>{"a": "1", "b": "2"}\<close> give \<open>a=1&b=2\<close>, and the keys \<open>a\<close> and
  \<open>a0\<close> show that the whole string is compared, not the key alone.
\<close>

theorem canonicalize_sorted_pairs:
  \<open>(canonicalize ps = Inr s \<longleftrightarrow>
      (\<exists>parts.
          list_all2
            (\<lambda>(k, v) p. \<exists>t.
               (case v of
                  PyDict kvs \<Rightarrow> json_dumps v = Inr t
                | PyList vs \<Rightarrow> json_dumps v = Inr t
                | PyTuple vs \<Rightarrow> py_repr v = Inr t
                | PyStr x \<Rightarrow> t = x
                | PyInt i \<Rightarrow> length (str_digits (abs i)) \<le> 4300 \<and> t = str_int i
                | PyBool b \<Rightarrow> t = (if b then ''True'' else ''False'')
                | PyObject x r \<Rightarrow> t = x
                | PyNone \<Rightarrow> t = ''None'')
               \<and> p = k @ ''='' @ t)
            (filter (\<lambda>(k, v). v \<noteq> PyNone) ps) parts
        \<and> s = join ''&'' (sort parts)))
   \<and> (mset ps = mset qs \<longrightarrow> (canonicalize ps = Inr s \<longleftrightarrow> canonicalize qs = Inr s))
   \<and> (mset ps = mset qs \<and> (\<forall>(k, v) \<in> set ps. ints_within_limit v) \<longrightarrow>
        canonicalize ps = canonicalize qs)
   \<and> canonicalize [(''b'', PyStr ''2''), (''a'', PyStr ''1'')] = Inr ''a=1&b=2''
   \<and> canonicalize [(''a'', PyStr ''1''), (''b'', PyStr ''2'')] = Inr ''a=1&b=2''
   \<and> canonicalize [(''a'', PyStr ''1''), (''a0'', PyStr ''1'')] = Inr ''a0=1&a=1''
   \<and> canonicalize [(''n'', PyNone), (''k'', PyList [PyInt 1, PyDict [(''x'', PyBool False)]]),
         (''i'', PyInt (-7)), (''flag'', PyBool True), (''cfg'', PyDict [(''y'', PyStr ''z'')])]
        = Inr ''cfg={"y":"z"}&flag=True&i=-7&k=[1,{"x":false}]''
   \<and> canonicalize [(''k'', PyTuple [PyInt 1, PyBool True, PyNone])] = Inr ''k=(1, True, None)''
   \<and> canonicalize [(''k'', PyList [PyInt 1, PyBool True, PyNone])] = Inr ''k=[1,true,null]''\<close>
proof -
  have e1: "canonicalize [(''b'', PyStr ''2''), (''a'', PyStr ''1'')] = Inr ''a=1&b=2''"
    by code_simp
  have e2: "canonicalize [(''a'', PyStr ''1''), (''b'', PyStr ''2'')] = Inr ''a=1&b=2''"
    by code_simp
  have e3: "canonicalize [(''a'', PyStr ''1''), (''a0'', PyStr ''1'')] = Inr ''a0=1&a=1''"
    by code_simp
  have e4: \<open>canonicalize [(''n'', PyNone), (''k'', PyList [PyInt 1, PyDict [(''x'', PyBool False)]]),
         (''i'', PyInt (-7)), (''flag'', PyBool True), (''cfg'', PyDict [(''y'', PyStr ''z'')])]
        = Inr ''cfg={"y":"z"}&flag=True&i=-7&k=[1,{"x":false}]''\<close>
    by code_simp
  have e5: "canonicalize [(''k'', PyTuple [PyInt 1, PyBool True, PyNone])] = Inr ''k=(1, True, None)''"
    by code_simp
  have e6: "canonicalize [(''k'', PyList [PyInt 1, PyBool True, PyNone])] = Inr ''k=[1,true,null]''"
    by code_simp
  have p: "mset ps = mset qs \<longrightarrow> (canonicalize ps = Inr s \<longleftrightarrow> canonicalize qs = Inr s)"
    using canonicalize_perm_Inr [of ps qs s] canonicalize_perm_Inr [of qs ps s] by auto
  have q: "mset ps = mset qs \<and> (\<forall>(k, v) \<in> set ps. ints_within_limit v) \<longrightarrow>
        canonicalize ps = canonicalize qs"
    using canonicalize_perm_limit [of ps qs] by blast
  have c: "canonicalize ps = Inr s \<longleftrightarrow>
      (\<exists>parts.
          list_all2
            (\<lambda>(k, v) p. \<exists>t.
               (case v of
                  PyDict kvs \<Rightarrow> json_dumps v = Inr t
                | PyList vs \<Rightarrow> json_dumps v = Inr t
                | PyTuple vs \<Rightarrow> py_repr v = Inr t
                | PyStr x \<Rightarrow> t = x
                | PyInt i \<Rightarrow> length (str_digits (abs i)) \<le> 4300 \<and> t = str_int i
                | PyBool b \<Rightarrow> t = (if b then ''True'' else ''False'')
                | PyObject x r \<Rightarrow> t = x
                | PyNone \<Rightarrow> t = ''None'')
               \<and> p = k @ ''='' @ t)
            (filter (\<lambda>(k, v). v \<noteq> PyNone) ps) parts
        \<and> s = join ''&'' (sort parts))"
    unfolding sign_value_kind [symmetric] by (rule canonicalize_Inr_iff)
  from c p q e1 e2 e3 e4 e5 e6 show ?thesis by (intro conjI)
qed

theorem canonicalize_sorted_pairs_witness:
  "mset [(''b'', PyStr ''2''), (''a'', PyStr ''1'')] = mset [(''a'', PyStr ''1''), (''b'', PyStr ''2'')]
   \<and> canonicalize [(''b'', PyStr ''2''), (''a'', PyStr ''1'')] = Inr ''a=1&b=2''
   \<and> canonicalize [(''a'', PyStr ''1''), (''b'', PyStr ''2'')] = Inr ''a=1&b=2''
   \<and> canonicalize [(''b'', PyStr ''2''), (''a'', PyStr ''1'')]
       = canonicalize [(''a'', PyStr ''1''), (''b'', PyStr ''2'')]"
proof -
  have m: "mset [(''b'', PyStr ''2''), (''a'', PyStr ''1'')] = mset [(''a'', PyStr ''1''), (''b'', PyStr ''2'')]"
    by (simp add: add_mset_commute)
  have l: "\<forall>(k, v) \<in> set [(''b'', PyStr ''2''), (''a'', PyStr ''1'')]. ints_within_limit v"
    by simp
  have e: "canonicalize [(''b'', PyStr ''2''), (''a'', PyStr ''1'')] = Inr ''a=1&b=2''"
    by code_simp
  show ?thesis
    using m l e canonicalize_sorted_pairs
      [of "[(''b'', PyStr ''2''), (''a'', PyStr ''1'')]" "''a=1&b=2''" "[(''a'', PyStr ''1''), (''b'', PyStr ''2'')]"]
    by blast
qed

text \<open>
  The claim as stated fails for a value that is a sequence but not a list: line 78
  tests for \<open>dict\<close> and \<open>list\<close> only, so a tuple is written into the signing string
  as \<open>str\<close> gives it, while its compact JSON text is another string.
\<close>

theorem tuple_is_signed_as_str:
  "canonicalize [(''k'', PyTuple [PyInt 1, PyInt 2])] = Inr ''k=(1, 2)''
   \<and> json_dumps (PyTuple [PyInt 1, PyInt 2]) = Inr ''[1,2]''"
proof -
  have a: "canonicalize [(''k'', PyTuple [PyInt 1, PyInt 2])] = Inr ''k=(1, 2)''"
    by code_simp
  have b: "json_dumps (PyTuple [PyInt 1, PyInt 2]) = Inr ''[1,2]''"
    by code_simp
  from a b show ?thesis by (rule conjI)
qed

subsection \<open>Padding\<close>

lemma pad_pkcs7_16:
  "pad_pkcs7 data 16 =
     Inr (data @ replicate (16 - length data mod 16) (of_nat (16 - length data mod 16)))"
proof -
  define k where "k = 16 - length data mod 16"
  have k: "1 \<le> k" "k \<le> 16" by (simp_all add: k_def)
  have m: "16 - int (length data) mod 16 = int k"
    unfolding k_def by (simp add: zmod_int of_nat_diff)
  have w: "(word_of_int (int k) :: byte) = of_nat k"
    by (rule of_int_of_nat_eq)
  show ?thesis
    unfolding pad_pkcs7_def Let_def m w k_def [symmetric] using k by simp
qed

lemma unat_pad_byte: "1 \<le> k \<Longrightarrow> k \<le> 16 \<Longrightarrow> unat (of_nat k :: byte) = k"
  by (simp add: unat_of_nat)
 

text \<open>
  Claim C5. For every byte string, \<open>_pad_pkcs7\<close> with the block size 16 returns a
  string whose length is a multiple of 16; it appends between 1 and 16 bytes, each of
  them equal to the number of bytes appended, hence a whole block of sixteen 16s when
  the length is already a multiple of 16. The last byte gives the number of padding
  bytes, and removing that many bytes from the end gives back the input.
\<close>

theorem pad_pkcs7_roundtrip:
  "\<exists>p. pad_pkcs7 data 16 = Inr p
      \<and> length p = length data + (16 - length data mod 16)
      \<and> length p mod 16 = 0
      \<and> (length data mod 16 = 0 \<longrightarrow> p = data @ replicate 16 16)
      \<and> p \<noteq> [] \<and> 1 \<le> unat (last p) \<and> unat (last p) \<le> 16
      \<and> drop (length p - unat (last p)) p = replicate (unat (last p)) (last p)
      \<and> take (length p - unat (last p)) p = data"
proof -
  define k where "k = 16 - length data mod 16"
  define p where "p = data @ replicate k (of_nat k :: byte)"
  have k: "1 \<le> k" "k \<le> 16" by (simp_all add: k_def)
  have l: "last p = of_nat k" using k by (simp add: p_def)
  have u: "unat (last p) = k" unfolding l using k by (rule unat_pad_byte)
  have len: "length p = length data + k" by (simp add: p_def)
  have m: "length p mod 16 = 0"
    unfolding len k_def by presburger
  have full: "length data mod 16 = 0 \<longrightarrow> p = data @ replicate 16 16"
    by (simp add: p_def k_def)
  have ne: "p \<noteq> []" using k by (auto simp: p_def)
  have d: "drop (length p - unat (last p)) p = replicate (unat (last p)) (last p)"
    unfolding u len unfolding l by (simp add: p_def)
  have t: "take (length p - unat (last p)) p = data"
    unfolding u len by (simp add: p_def)
  have "pad_pkcs7 data 16 = Inr p"
    unfolding p_def k_def by (rule pad_pkcs7_16)
  with len m full ne u k d t show ?thesis
    unfolding k_def [symmetric] by auto
qed

theorem pad_pkcs7_roundtrip_witness:
  "pad_pkcs7 (replicate 16 7) 16 = Inr (replicate 16 7 @ replicate 16 16)
   \<and> take (32 - unat (last (replicate 16 7 @ replicate 16 (16 :: byte)))) (replicate 16 7 @ replicate 16 16) = replicate 16 (7 :: byte)"
  using pad_pkcs7_roundtrip [of "replicate 16 7"] by simp

subsection \<open>The runs of \<open>_crypto_data\<close>\<close>

text \<open>
  A call of \<open>_crypto_data\<close> ends in one of five ways: the signing string cannot be
  built, the signed dict cannot be serialised, the key import fails, the key wrapping
  fails, or the envelope is returned. Each lemma gives the result and the world after
  the call.
\<close>

lemmas world_ops =
  setitem_def time_ms_def log_event_def urandom_def take_entropy_def generate_aes_key_def
  hmac_md5_hexdigest_def aes_new_def cipher_encrypt_def import_key_def oaep_cipher_encrypt_def

lemma crypto_data_sign_error:
  assumes "canonicalize (assembled_params (heap w p) path (clock_ms w (clock_reads w))) = Inl e"
  shows "crypto_data L p path w =
    (Inl e,
     w\<lparr>heap := (heap w)(p := assembled_params (heap w p) path (clock_ms w (clock_reads w))),
       clock_reads := Suc (clock_reads w),
       trace := trace w @ [ClockRead (clock_ms w (clock_reads w))]\<rparr>)"
  using assms
  by (simp add: crypto_data_def world_ops assembled_params_def Let_def)

lemma crypto_data_dumps_error:
  assumes "canonicalize (assembled_params (heap w p) path (clock_ms w (clock_reads w))) = Inr s"
    and "json_dumps (PyDict (signed_params L (heap w p) path (clock_ms w (clock_reads w)) s)) = Inl e"
  shows "crypto_data L p path w =
    (Inl e,
     w\<lparr>heap := (heap w)(p := signed_params L (heap w p) path (clock_ms w (clock_reads w)) s),
       clock_reads := Suc (clock_reads w),
       entropy_used := entropy_used w + 16,
       trace := trace w @
         [ClockRead (clock_ms w (clock_reads w)),
          HmacMd5 (utf8_encode SECRET) (utf8_encode s),
          Urandom (map (entropy w) [entropy_used w ..< entropy_used w + 16]),
          AesNew (map (entropy w) [entropy_used w ..< entropy_used w + 16]) (replicate 16 0)]\<rparr>)"
  using assms
  by (simp add: crypto_data_def world_ops assembled_params_def signed_params_def signature_of_def Let_def)


lemma padded_aligned:
  "length (data @ replicate (16 - length data mod 16) x) mod 16 = 0"
proof -
  have "(length data + (16 - length data mod 16)) mod 16 = 0" by presburger
  then show ?thesis by simp
qed

lemma crypto_data_ok:
  assumes "canonicalize (assembled_params (heap w p) path (clock_ms w (clock_reads w))) = Inr s"
    and "json_dumps (PyDict (signed_params L (heap w p) path (clock_ms w (clock_reads w)) s)) = Inr js"
    and "pad_pkcs7 (utf8_encode js) 16 = Inr padded"
    and "rsa_import_key L PUB_KEY = Some pk"
    and "oaep_encrypt L pk (map (entropy w) [entropy_used w + 16 ..< entropy_used w + 16 + 20])
           (map (entropy w) [entropy_used w ..< entropy_used w + 16]) = Some ct"
  shows "crypto_data L p path w =
    (Inr [(''key'', PyStr (b64encode ct)),
          (''data'', PyStr (b64encode (cbc_encrypt (aes_encrypt_block L)
              (map (entropy w) [entropy_used w ..< entropy_used w + 16]) (replicate 16 0) padded)))],
     w\<lparr>heap := (heap w)(p := signed_params L (heap w p) path (clock_ms w (clock_reads w)) s),
       clock_reads := Suc (clock_reads w),
       entropy_used := entropy_used w + 16 + 20,
       trace := trace w @
         [ClockRead (clock_ms w (clock_reads w)),
          HmacMd5 (utf8_encode SECRET) (utf8_encode s),
          Urandom (map (entropy w) [entropy_used w ..< entropy_used w + 16]),
          AesNew (map (entropy w) [entropy_used w ..< entropy_used w + 16]) (replicate 16 0),
          AesEncrypt padded,
          RsaImportKey PUB_KEY,
          OaepNew,
          OaepEncrypt (map (entropy w) [entropy_used w ..< entropy_used w + 16])]\<rparr>)"
proof -
  have "padded = utf8_encode js @ replicate (16 - length (utf8_encode js) mod 16)
      (of_nat (16 - length (utf8_encode js) mod 16))"
    using assms(3) unfolding pad_pkcs7_16 by (rule sum.inject(2) [THEN iffD1, symmetric])
  then have al: "length padded mod 16 = 0"
    by (simp only: padded_aligned)
  show ?thesis
    using assms al
    by (simp add: crypto_data_def world_ops assembled_params_def signed_params_def
        signature_of_def Let_def)
qed


lemma crypto_data_import_error:
  assumes "canonicalize (assembled_params (heap w p) path (clock_ms w (clock_reads w))) = Inr s"
    and "json_dumps (PyDict (signed_params L (heap w p) path (clock_ms w (clock_reads w)) s)) = Inr js"
    and "pad_pkcs7 (utf8_encode js) 16 = Inr padded"
    and "rsa_import_key L PUB_KEY = None"
  shows "crypto_data L p path w =
    (Inl ValueError,
     w\<lparr>heap := (heap w)(p := signed_params L (heap w p) path (clock_ms w (clock_reads w)) s),
       clock_reads := Suc (clock_reads w),
       entropy_used := entropy_used w + 16,
       trace := trace w @
         [ClockRead (clock_ms w (clock_reads w)),
          HmacMd5 (utf8_encode SECRET) (utf8_encode s),
          Urandom (map (entropy w) [entropy_used w ..< entropy_used w + 16]),
          AesNew (map (entropy w) [entropy_used w ..< entropy_used w + 16]) (replicate 16 0),
          AesEncrypt padded,
          RsaImportKey PUB_KEY]\<rparr>)"
proof -
  have "padded = utf8_encode js @ replicate (16 - length (utf8_encode js) mod 16)
      (of_nat (16 - length (utf8_encode js) mod 16))"
    using assms(3) unfolding pad_pkcs7_16 by (rule sum.inject(2) [THEN iffD1, symmetric])
  then have al: "length padded mod 16 = 0"
    by (simp only: padded_aligned)
  show ?thesis
    using assms al
    by (simp add: crypto_data_def world_ops assembled_params_def signed_params_def
        signature_of_def Let_def)
qed

lemma crypto_data_oaep_error:
  assumes "canonicalize (assembled_params (heap w p) path (clock_ms w (clock_reads w))) = Inr s"
    and "json_dumps (PyDict (signed_params L (heap w p) path (clock_ms w (clock_reads w)) s)) = Inr js"
    and "pad_pkcs7 (utf8_encode js) 16 = Inr padded"
    and "rsa_import_key L PUB_KEY = Some pk"
    and "oaep_encrypt L pk (map (entropy w) [entropy_used w + 16 ..< entropy_used w + 16 + 20])
           (map (entropy w) [entropy_used w ..< entropy_used w + 16]) = None"
  shows "crypto_data L p path w =
    (Inl ValueError,
     w\<lparr>heap := (heap w)(p := signed_params L (heap w p) path (clock_ms w (clock_reads w)) s),
       clock_reads := Suc (clock_reads w),
       entropy_used := entropy_used w + 16 + 20,
       trace := trace w @
         [ClockRead (clock_ms w (clock_reads w)),
          HmacMd5 (utf8_encode SECRET) (utf8_encode s),
          Urandom (map (entropy w) [entropy_used w ..< entropy_used w + 16]),
          AesNew (map (entropy w) [entropy_used w ..< entropy_used w + 16]) (replicate 16 0),
          AesEncrypt padded,
          RsaImportKey PUB_KEY,
          OaepNew,
          OaepEncrypt (map (entropy w) [entropy_used w ..< entropy_used w + 16])]\<rparr>)"
proof -
  have "padded = utf8_encode js @ replicate (16 - length (utf8_encode js) mod 16)
      (of_nat (16 - length (utf8_encode js) mod 16))"
    using assms(3) unfolding pad_pkcs7_16 by (rule sum.inject(2) [THEN iffD1, symmetric])
  then have al: "length padded mod 16 = 0"
    by (simp only: padded_aligned)
  show ?thesis
    using assms al
    by (simp add: crypto_data_def world_ops assembled_params_def signed_params_def
        signature_of_def Let_def)
qed

lemma crypto_data_cases [case_names sign_error dumps_error import_error oaep_error ok]:
  obtains
    (sign_error) e where
      "canonicalize (assembled_params (heap w p) path (clock_ms w (clock_reads w))) = Inl e"
      "crypto_data L p path w =
        (Inl e,
         w\<lparr>heap := (heap w)(p := assembled_params (heap w p) path (clock_ms w (clock_reads w))),
           clock_reads := Suc (clock_reads w),
           trace := trace w @ [ClockRead (clock_ms w (clock_reads w))]\<rparr>)"
  | (dumps_error) s e where
      "canonicalize (assembled_params (heap w p) path (clock_ms w (clock_reads w))) = Inr s"
      "json_dumps (PyDict (signed_params L (heap w p) path (clock_ms w (clock_reads w)) s)) = Inl e"
      "crypto_data L p path w =
        (Inl e,
         w\<lparr>heap := (heap w)(p := signed_params L (heap w p) path (clock_ms w (clock_reads w)) s),
           clock_reads := Suc (clock_reads w),
           entropy_used := entropy_used w + 16,
           trace := trace w @
             [ClockRead (clock_ms w (clock_reads w)),
              HmacMd5 (utf8_encode SECRET) (utf8_encode s),
              Urandom (map (entropy w) [entropy_used w ..< entropy_used w + 16]),
              AesNew (map (entropy w) [entropy_used w ..< entropy_used w + 16]) (replicate 16 0)]\<rparr>)"
  | (import_error) s js padded where
      "canonicalize (assembled_params (heap w p) path (clock_ms w (clock_reads w))) = Inr s"
      "json_dumps (PyDict (signed_params L (heap w p) path (clock_ms w (clock_reads w)) s)) = Inr js"
      "pad_pkcs7 (utf8_encode js) 16 = Inr padded"
      "rsa_import_key L PUB_KEY = None"
      "crypto_data L p path w =
        (Inl ValueError,
         w\<lparr>heap := (heap w)(p := signed_params L (heap w p) path (clock_ms w (clock_reads w)) s),
           clock_reads := Suc (clock_reads w),
           entropy_used := entropy_used w + 16,
           trace := trace w @
             [ClockRead (clock_ms w (clock_reads w)),
              HmacMd5 (utf8_encode SECRET) (utf8_encode s),
              Urandom (map (entropy w) [entropy_used w ..< entropy_used w + 16]),
              AesNew (map (entropy w) [entropy_used w ..< entropy_used w + 16]) (replicate 16 0),
              AesEncrypt padded,
              RsaImportKey PUB_KEY]\<rparr>)"
  | (oaep_error) s js padded pk where
      "canonicalize (assembled_params (heap w p) path (clock_ms w (clock_reads w))) = Inr s"
      "json_dumps (PyDict (signed_params L (heap w p) path (clock_ms w (clock_reads w)) s)) = Inr js"
      "pad_pkcs7 (utf8_encode js) 16 = Inr padded"
      "rsa_import_key L PUB_KEY = Some pk"
      "oaep_encrypt L pk (map (entropy w) [entropy_used w + 16 ..< entropy_used w + 16 + 20])
           (map (entropy w) [entropy_used w ..< entropy_used w + 16]) = None"
      "crypto_data L p path w =
        (Inl ValueError,
         w\<lparr>heap := (heap w)(p := signed_params L (heap w p) path (clock_ms w (clock_reads w)) s),
           clock_reads := Suc (clock_reads w),
           entropy_used := entropy_used w + 16 + 20,
           trace := trace w @
             [ClockRead (clock_ms w (clock_reads w)),
              HmacMd5 (utf8_encode SECRET) (utf8_encode s),
              Urandom (map (entropy w) [entropy_used w ..< entropy_used w + 16]),
              AesNew (map (entropy w) [entropy_used w ..< entropy_used w + 16]) (replicate 16 0),
              AesEncrypt padded,
              RsaImportKey PUB_KEY,
              OaepNew,
              OaepEncrypt (map (entropy w) [entropy_used w ..< entropy_used w + 16])]\<rparr>)"
  | (ok) s js padded pk ct where
      "canonicalize (assembled_params (heap w p) path (clock_ms w (clock_reads w))) = Inr s"
      "json_dumps (PyDict (signed_params L (heap w p) path (clock_ms w (clock_reads w)) s)) = Inr js"
      "pad_pkcs7 (utf8_encode js) 16 = Inr padded"
      "rsa_import_key L PUB_KEY = Some pk"
      "oaep_encrypt L pk (map (entropy w) [entropy_used w + 16 ..< entropy_used w + 16 + 20])
           (map (entropy w) [entropy_used w ..< entropy_used w + 16]) = Some ct"
      "crypto_data L p path w =
        (Inr [(''key'', PyStr (b64encode ct)),
              (''data'', PyStr (b64encode (cbc_encrypt (aes_encrypt_block L)
                  (map (entropy w) [entropy_used w ..< entropy_used w + 16]) (replicate 16 0) padded)))],
         w\<lparr>heap := (heap w)(p := signed_params L (heap w p) path (clock_ms w (clock_reads w)) s),
           clock_reads := Suc (clock_reads w),
           entropy_used := entropy_used w + 16 + 20,
           trace := trace w @
             [ClockRead (clock_ms w (clock_reads w)),
              HmacMd5 (utf8_encode SECRET) (utf8_encode s),
              Urandom (map (entropy w) [entropy_used w ..< entropy_used w + 16]),
              AesNew (map (entropy w) [entropy_used w ..< entropy_used w + 16]) (replicate 16 0),
              AesEncrypt padded,
              RsaImportKey PUB_KEY,
              OaepNew,
              OaepEncrypt (map (entropy w) [entropy_used w ..< entropy_used w + 16])]\<rparr>)"
proof (cases "canonicalize (assembled_params (heap w p) path (clock_ms w (clock_reads w)))")
  case (Inl e)
  then show ?thesis
    using sign_error crypto_data_sign_error by blast
next
  case (Inr s)
  note c = this
  show ?thesis
  proof (cases "json_dumps (PyDict (signed_params L (heap w p) path (clock_ms w (clock_reads w)) s))")
    case (Inl e)
    then show ?thesis
      using dumps_error [OF c] crypto_data_dumps_error [OF c] by blast
  next
    case (Inr js)
    note j = this
    obtain padded where pd: "pad_pkcs7 (utf8_encode js) 16 = Inr padded"
      unfolding pad_pkcs7_16 by blast
    show ?thesis
    proof (cases "rsa_import_key L PUB_KEY")
      case None
      then show ?thesis
        using import_error [OF c j pd] crypto_data_import_error [OF c j pd] by blast
    next
      case (Some pk)
      note k = this
      show ?thesis
      proof (cases "oaep_encrypt L pk (map (entropy w) [entropy_used w + 16 ..< entropy_used w + 16 + 20])
           (map (entropy w) [entropy_used w ..< entropy_used w + 16])")
        case None
        then show ?thesis
          using oaep_error [OF c j pd k] crypto_data_oaep_error [OF c j pd k] by blast
      next
        case (Some ct)
        then show ?thesis
          using ok [OF c j pd k] crypto_data_ok [OF c j pd k] by blast
      qed
    qed
  qed
qed

subsection \<open>Dicts and hexadecimal digits\<close>

lemma dict_get_setitem:
  "dict_get (dict_setitem d k v) k' = (if k' = k then Some v else dict_get d k')"
  by (induction d k v rule: dict_setitem.induct) auto

lemma dict_get_in_set: "dict_get d k = Some v \<Longrightarrow> (k, v) \<in> set d"
  by (induction d k rule: dict_get.induct) (auto split: if_splits)

lemma list_all2_member:
  "list_all2 R xs ys \<Longrightarrow> x \<in> set xs \<Longrightarrow> \<exists>y \<in> set ys. R x y"
  by (induction rule: list_all2_induct) auto

lemma sign_parts_member:
  assumes "sign_parts d [] = Inr parts" and "dict_get d k = Some v" and "v \<noteq> PyNone"
  shows "\<exists>t. sign_value v = Inr t \<and> k @ ''='' @ t \<in> set parts"
proof -
  have "(k, v) \<in> set (filter (\<lambda>(k, v). v \<noteq> PyNone) d)"
    using assms(2,3) by (auto dest: dict_get_in_set)
  from list_all2_member [OF assms(1) [unfolded sign_parts_Inr_iff] this]
  show ?thesis by auto
qed

lemma hex_byte_chars: "set (hex_byte b) \<subseteq> set ''0123456789abcdef''"
proof -
  have d: "\<And>n. n < 16 \<Longrightarrow> digit_char n \<in> set ''0123456789abcdef''"
    unfolding digit_char_def by (rule nth_mem) simp
  have "unat b < 2 ^ LENGTH(8)"
    by (rule unsigned_less)
  then have "unat b < 256"
    by simp
  then have "unat b div 16 < 16"
    by (simp add: less_mult_imp_div_less)
  then show ?thesis
    unfolding hex_byte_def using d by simp
qed

lemma hexdigest_chars: "set (hexdigest bs) \<subseteq> set ''0123456789abcdef''"
  unfolding hexdigest_def using hex_byte_chars by (induction bs) auto

lemma hexdigest_length: "length (hexdigest bs) = 2 * length bs"
  unfolding hexdigest_def hex_byte_def by (induction bs) auto

subsection \<open>The example run\<close>

lemma example_canonical:
  "canonicalize (assembled_params (example_heap 0) ''/p'' 1700000000000)
     = Inr ''answerResult=1&apiPath=%2Fp&appId=API_AUTH_WEB&channelId=APP&timestamp=1700000000000''"
  by code_simp

lemma example_serialisable:
  "\<exists>js. json_dumps (PyDict (signed_params toy_lib (example_heap 0) ''/p'' 1700000000000
      ''answerResult=1&apiPath=%2Fp&appId=API_AUTH_WEB&channelId=APP&timestamp=1700000000000'')) = Inr js"
proof -
  have "case json_dumps (PyDict (signed_params toy_lib (example_heap 0) ''/p'' 1700000000000
      ''answerResult=1&apiPath=%2Fp&appId=API_AUTH_WEB&channelId=APP&timestamp=1700000000000'')) of
        Inl e \<Rightarrow> False | Inr js \<Rightarrow> True"
    by code_simp
  then show ?thesis by (auto split: sum.splits)
qed

lemma example_succeeds:
  "\<exists>env w'. crypto_data toy_lib 0 ''/p'' example_world = (Inr env, w')"
proof -
  have h: "heap example_world 0 = example_heap 0"
    "clock_ms example_world (clock_reads example_world) = 1700000000000"
    by (simp_all add: example_world_def)
  show ?thesis
  proof (cases rule: crypto_data_cases [of example_world 0 "''/p''" toy_lib])
    case (sign_error e)
    then show ?thesis unfolding h using example_canonical by simp
  next
    case (dumps_error s e)
    then show ?thesis unfolding h using example_canonical example_serialisable by auto
  next
    case (import_error s js padded)
    then show ?thesis by (simp add: toy_lib_def)
  next
    case (oaep_error s js padded pk)
    then show ?thesis by (simp add: toy_lib_def)
  next
    case (ok s js padded pk ct)
    then show ?thesis by blast
  qed
qed

subsection \<open>The initialisation vector\<close>

text \<open>
  Claim C6. In every call of \<open>_crypto_data\<close>, whatever its outcome, each cipher that
  is created gets the IV of sixteen zero bytes; when an envelope is returned, its
  \<open>data\<close> field is the base64 text of the CBC encryption under that IV.
\<close>

theorem iv_is_sixteen_zero_bytes:
  "\<exists>evs. trace (snd (crypto_data L p path w)) = trace w @ evs
      \<and> (\<forall>k iv. AesNew k iv \<in> set evs \<longrightarrow> iv = replicate 16 0)
      \<and> (\<forall>env. fst (crypto_data L p path w) = Inr env \<longrightarrow>
           (\<exists>k padded. AesNew k (replicate 16 0) \<in> set evs \<and> AesEncrypt padded \<in> set evs
              \<and> dict_get env ''data'' =
                  Some (PyStr (b64encode (cbc_encrypt (aes_encrypt_block L) k (replicate 16 0) padded)))))"
proof (cases rule: crypto_data_cases [of w p path L])
  case (sign_error e)
  then show ?thesis by simp
next
  case (dumps_error s e)
  then show ?thesis by simp
next
  case (import_error s js padded)
  then show ?thesis by simp
next
  case (oaep_error s js padded pk)
  then show ?thesis by simp
next
  case (ok s js padded pk ct)
  then show ?thesis by auto
qed

theorem iv_is_sixteen_zero_bytes_witness:
  "(\<exists>env. fst (crypto_data toy_lib 0 ''/p'' example_world) = Inr env)
   \<and> (\<exists>evs. trace (snd (crypto_data toy_lib 0 ''/p'' example_world)) = trace example_world @ evs
      \<and> (\<exists>k. AesNew k (replicate 16 0) \<in> set evs)
      \<and> (\<forall>k iv. AesNew k iv \<in> set evs \<longrightarrow> iv = replicate 16 0))"
proof -
  from example_succeeds obtain env w' where
    r: "crypto_data toy_lib 0 ''/p'' example_world = (Inr env, w')" by blast
  then have f: "fst (crypto_data toy_lib 0 ''/p'' example_world) = Inr env" by simp
  from iv_is_sixteen_zero_bytes [of toy_lib 0 "''/p''" example_world]
  obtain evs where e: "trace (snd (crypto_data toy_lib 0 ''/p'' example_world)) = trace example_world @ evs"
    "\<forall>k iv. AesNew k iv \<in> set evs \<longrightarrow> iv = replicate 16 0"
    "\<forall>env. fst (crypto_data toy_lib 0 ''/p'' example_world) = Inr env \<longrightarrow>
           (\<exists>k padded. AesNew k (replicate 16 0) \<in> set evs \<and> AesEncrypt padded \<in> set evs
              \<and> dict_get env ''data'' =
                  Some (PyStr (b64encode (cbc_encrypt (aes_encrypt_block toy_lib) k (replicate 16 0) padded))))"
    by blast
  from e(3) f have "\<exists>k. AesNew k (replicate 16 0) \<in> set evs" by blast
  with f e(1,2) show ?thesis by blast
qed


subsection \<open>Where a serialisation error is raised\<close>

lemma sign_parts_fails_on_entry:
  "(k, v) \<in> set d \<Longrightarrow> v \<noteq> PyNone \<Longrightarrow> isl (sign_value v) \<Longrightarrow> isl (sign_parts d acc)"
  by (induction d acc rule: sign_parts.induct) (auto split: sum.splits)

lemma canonicalize_fails_on_entry:
  assumes "(k, v) \<in> set d" and "isinstance_dict_list v" and "isl (json_dumps v)"
  shows "isl (canonicalize d)"
proof -
  have "v \<noteq> PyNone" "isl (sign_value v)"
    using assms(2,3) by (auto simp: sign_value_def)
  from sign_parts_fails_on_entry [OF assms(1) this, of "[]"] show ?thesis
    unfolding canonicalize_def by (auto split: sum.splits)
qed

lemma sign_parts_ok:
  "\<forall>(k, v) \<in> set d. v \<noteq> PyNone \<longrightarrow> (\<exists>s. sign_value v = Inr s) \<Longrightarrow>
     \<exists>parts. sign_parts d acc = Inr parts"
  by (induction d acc rule: sign_parts.induct) (auto split: sum.splits)

lemma canonicalize_ok:
  assumes "\<forall>(k, v) \<in> set d. ints_within_limit v"
    and "\<forall>(k, v) \<in> set d. isinstance_dict_list v \<longrightarrow> \<not> isl (json_dumps v)"
  shows "\<exists>s. canonicalize d = Inr s"
proof -
  have "\<forall>(k, v) \<in> set d. v \<noteq> PyNone \<longrightarrow> (\<exists>s. sign_value v = Inr s)"
    using assms sign_value_ok by blast
  from sign_parts_ok [OF this, of "[]"] show ?thesis
    unfolding canonicalize_def by auto
qed

lemma json_pairs_fails_on_entry:
  "(k, v) \<in> set d \<Longrightarrow> isl (json_dumps v) \<Longrightarrow> isl (json_pairs d)"
  by (induction d) (auto split: sum.splits)

lemma json_dict_fails_on_entry:
  "(k, v) \<in> set d \<Longrightarrow> isl (json_dumps v) \<Longrightarrow> isl (json_dumps (PyDict d))"
  using json_pairs_fails_on_entry [of k v d] by (auto split: sum.splits)

lemma json_dict_err_limit:
  "\<forall>(k, v) \<in> set d. ints_within_limit v \<Longrightarrow> json_dumps (PyDict d) = Inl e \<Longrightarrow> e = TypeError"
  using json_err_limit(1) [of "PyDict d" e] by (simp add: ints_within_limit_pairs_iff)

lemma set_setitem_other:
  "(k, v) \<in> set d \<Longrightarrow> k \<noteq> key \<Longrightarrow> (k, v) \<in> set (dict_setitem d key x)"
  by (induction d key x rule: dict_setitem.induct) auto

lemma set_setitem_sub:
  "(k, v) \<in> set (dict_setitem d key x) \<Longrightarrow> (k, v) \<in> set d \<or> (k = key \<and> v = x)"
  by (induction d key x rule: dict_setitem.induct) (auto split: if_splits)

lemma signed_within_limit:
  assumes "\<forall>(k, v) \<in> set (assembled_params d path t). ints_within_limit v"
  shows "\<forall>(k, v) \<in> set (signed_params L d path t s). ints_within_limit v"
  using assms unfolding signed_params_def by (auto dest!: set_setitem_sub)

lemma signed_keeps_entry:
  "(k, v) \<in> set (assembled_params d path t) \<Longrightarrow> k \<noteq> ''signature'' \<Longrightarrow>
     (k, v) \<in> set (signed_params L d path t s)"
  unfolding signed_params_def by (rule set_setitem_other)

text \<open>
  Claim C2, as amended. \<open>_crypto_data\<close> raises the serialisation error at one of two
  points. If an entry of the dict, as it is after lines 70 to 72, holds a dict or a list
  that \<open>json.dumps\<close> cannot write, the call fails while the signing string is built
  (line 79), when only the clock has been read; the error is \<open>TypeError\<close> when no int
  is over-long. If every dict and list among the entries can be written, no int is
  over-long, and an entry under a key other than \<open>signature\<close> holds a value that
  \<open>json.dumps\<close> cannot write, the signing string is built and the call fails with
  \<open>TypeError\<close> when the signed dict is serialised (line 95): the HMAC has been
  computed, the random key has been generated and the cipher has been created, and
  nothing else, so no encryption and no key wrapping call is made and no envelope is
  returned. In terms of the two results, the call fails with \<open>TypeError\<close> exactly when
  building the signing string or serialising the signed dict does.
\<close>

theorem serialization_error_points:
  "((\<exists>(k, v) \<in> set (assembled_params (heap w p) path (clock_ms w (clock_reads w))).
        isinstance_dict_list v \<and> isl (json_dumps v)) \<longrightarrow>
      isl (fst (crypto_data L p path w))
      \<and> isl (canonicalize (assembled_params (heap w p) path (clock_ms w (clock_reads w))))
      \<and> trace (snd (crypto_data L p path w)) = trace w @ [ClockRead (clock_ms w (clock_reads w))]
      \<and> ((\<forall>(k, v) \<in> set (assembled_params (heap w p) path (clock_ms w (clock_reads w))).
              ints_within_limit v) \<longrightarrow>
           fst (crypto_data L p path w) = Inl TypeError))
   \<and> ((\<forall>(k, v) \<in> set (assembled_params (heap w p) path (clock_ms w (clock_reads w))).
          ints_within_limit v \<and> (isinstance_dict_list v \<longrightarrow> \<not> isl (json_dumps v)))
       \<and> (\<exists>(k, v) \<in> set (assembled_params (heap w p) path (clock_ms w (clock_reads w))).
            k \<noteq> ''signature'' \<and> isl (json_dumps v)) \<longrightarrow>
      fst (crypto_data L p path w) = Inl TypeError
      \<and> (\<exists>s. canonicalize (assembled_params (heap w p) path (clock_ms w (clock_reads w))) = Inr s
           \<and> trace (snd (crypto_data L p path w)) = trace w @
               [ClockRead (clock_ms w (clock_reads w)),
                HmacMd5 (utf8_encode SECRET) (utf8_encode s),
                Urandom (map (entropy w) [entropy_used w ..< entropy_used w + 16]),
                AesNew (map (entropy w) [entropy_used w ..< entropy_used w + 16]) (replicate 16 0)]))
   \<and> (fst (crypto_data L p path w) = Inl TypeError \<longleftrightarrow>
        canonicalize (assembled_params (heap w p) path (clock_ms w (clock_reads w))) = Inl TypeError
      \<or> (\<exists>s. canonicalize (assembled_params (heap w p) path (clock_ms w (clock_reads w))) = Inr s
            \<and> json_dumps (PyDict (signed_params L (heap w p) path (clock_ms w (clock_reads w)) s))
                = Inl TypeError))
   \<and> (canonicalize (assembled_params (heap w p) path (clock_ms w (clock_reads w))) = Inl TypeError \<longrightarrow>
        trace (snd (crypto_data L p path w)) = trace w @ [ClockRead (clock_ms w (clock_reads w))])
   \<and> (\<forall>s. canonicalize (assembled_params (heap w p) path (clock_ms w (clock_reads w))) = Inr s
          \<and> json_dumps (PyDict (signed_params L (heap w p) path (clock_ms w (clock_reads w)) s))
                = Inl TypeError \<longrightarrow>
        trace (snd (crypto_data L p path w)) = trace w @
          [ClockRead (clock_ms w (clock_reads w)),
           HmacMd5 (utf8_encode SECRET) (utf8_encode s),
           Urandom (map (entropy w) [entropy_used w ..< entropy_used w + 16]),
           AesNew (map (entropy w) [entropy_used w ..< entropy_used w + 16]) (replicate 16 0)])"
  (is "(?A \<longrightarrow> ?A1 \<and> ?A2 \<and> ?A3 \<and> (?LIM \<longrightarrow> ?A4)) \<and> (?B \<longrightarrow> ?B1 \<and> ?B2) \<and> ?C \<and> ?D \<and> ?E")
proof -
  let ?d = "assembled_params (heap w p) path (clock_ms w (clock_reads w))"
  have fa: "isl (canonicalize ?d)" if "?A"
    using that canonicalize_fails_on_entry [of _ _ ?d] by blast
  have fb: "\<exists>s. canonicalize ?d = Inr s" if "?B"
    using that canonicalize_ok [of ?d] by blast
  have fc: "isl (json_dumps (PyDict (signed_params L (heap w p) path (clock_ms w (clock_reads w)) s)))"
    if "?B" for s
  proof -
    from that obtain k v where "(k, v) \<in> set ?d" "k \<noteq> ''signature''" "isl (json_dumps v)"
      by blast
    from json_dict_fails_on_entry [OF signed_keeps_entry [OF this(1,2)] this(3)]
    show ?thesis .
  qed
  have fd: "e = TypeError"
    if "?B" "json_dumps (PyDict (signed_params L (heap w p) path (clock_ms w (clock_reads w)) s)) = Inl e"
    for s e
  proof -
    from that(1) have "\<forall>(k, v) \<in> set ?d. ints_within_limit v" by blast
    from json_dict_err_limit [OF signed_within_limit [OF this] that(2)] show ?thesis .
  qed
  have fe: "e = TypeError" if "?LIM" "canonicalize ?d = Inl e" for e
    using canonicalize_err_limit [OF that] .
  show ?thesis
  proof (cases rule: crypto_data_cases [of w p path L])
    case (sign_error e)
    have a: "?A \<longrightarrow> ?A1 \<and> ?A2 \<and> ?A3 \<and> (?LIM \<longrightarrow> ?A4)"
      using sign_error fe by simp
    have b: "?B \<longrightarrow> ?B1 \<and> ?B2"
      using sign_error(1) fb by auto
    have c: ?C using sign_error by simp
    have d: ?D using sign_error by simp
    have e: ?E using sign_error by simp
    from a b c d e show ?thesis by (intro conjI)
  next
    case (dumps_error s e)
    have a: "?A \<longrightarrow> ?A1 \<and> ?A2 \<and> ?A3 \<and> (?LIM \<longrightarrow> ?A4)"
      using dumps_error(1) fa by auto
    have b: "?B \<longrightarrow> ?B1 \<and> ?B2"
      using dumps_error fd [of s e] by simp
    have c: ?C using dumps_error by simp
    have d: ?D using dumps_error by simp
    have e: ?E using dumps_error by simp
    from a b c d e show ?thesis by (intro conjI)
  next
    case (import_error s js padded)
    have a: "?A \<longrightarrow> ?A1 \<and> ?A2 \<and> ?A3 \<and> (?LIM \<longrightarrow> ?A4)"
      using import_error(1) fa by auto
    have b: "?B \<longrightarrow> ?B1 \<and> ?B2"
      using import_error(2) fc [of s] by auto
    have c: ?C using import_error by simp
    have d: ?D using import_error by simp
    have e: ?E using import_error by simp
    from a b c d e show ?thesis by (intro conjI)
  next
    case (oaep_error s js padded pk)
    have a: "?A \<longrightarrow> ?A1 \<and> ?A2 \<and> ?A3 \<and> (?LIM \<longrightarrow> ?A4)"
      using oaep_error(1) fa by auto
    have b: "?B \<longrightarrow> ?B1 \<and> ?B2"
      using oaep_error(2) fc [of s] by auto
    have c: ?C using oaep_error by simp
    have d: ?D using oaep_error by simp
    have e: ?E using oaep_error by simp
    from a b c d e show ?thesis by (intro conjI)
  next
    case (ok s js padded pk ct)
    have a: "?A \<longrightarrow> ?A1 \<and> ?A2 \<and> ?A3 \<and> (?LIM \<longrightarrow> ?A4)"
      using ok(1) fa by auto
    have b: "?B \<longrightarrow> ?B1 \<and> ?B2"
      using ok(2) fc [of s] by auto
    have c: ?C using ok by simp
    have d: ?D using ok by simp
    have e: ?E using ok by simp
    from a b c d e show ?thesis by (intro conjI)
  qed
qed

theorem serialization_error_points_witness:
  "(''tags'', PyList [PyObject ''2024-01-01'' ''datetime.date(2024, 1, 1)''])
      \<in> set (assembled_params (heap example_world 2) ''/p''
               (clock_ms example_world (clock_reads example_world)))
   \<and> json_dumps (PyList [PyObject ''2024-01-01'' ''datetime.date(2024, 1, 1)'']) = Inl TypeError
   \<and> fst (crypto_data toy_lib 2 ''/p'' example_world) = Inl TypeError
   \<and> trace (snd (crypto_data toy_lib 2 ''/p'' example_world)) =
        trace example_world @ [ClockRead (clock_ms example_world (clock_reads example_world))]
   \<and> (''when'', PyObject ''2024-01-01'' ''datetime.date(2024, 1, 1)'')
      \<in> set (assembled_params (heap example_world 1) ''/p''
               (clock_ms example_world (clock_reads example_world)))
   \<and> json_dumps (PyObject ''2024-01-01'' ''datetime.date(2024, 1, 1)'') = Inl TypeError
   \<and> canonicalize (assembled_params (heap example_world 1) ''/p''
      (clock_ms example_world (clock_reads example_world))) =
        Inr ''apiPath=%2Fp&appId=API_AUTH_WEB&timestamp=1700000000000&when=2024-01-01''
   \<and> fst (crypto_data toy_lib 1 ''/p'' example_world) = Inl TypeError
   \<and> trace (snd (crypto_data toy_lib 1 ''/p'' example_world)) = trace example_world @
          [ClockRead (clock_ms example_world (clock_reads example_world)),
           HmacMd5 (utf8_encode SECRET)
             (utf8_encode ''apiPath=%2Fp&appId=API_AUTH_WEB&timestamp=1700000000000&when=2024-01-01''),
           Urandom (map (entropy example_world)
             [entropy_used example_world ..< entropy_used example_world + 16]),
           AesNew (map (entropy example_world)
             [entropy_used example_world ..< entropy_used example_world + 16]) (replicate 16 0)]"
proof -
  let ?d2 = "assembled_params (heap example_world 2) ''/p''
      (clock_ms example_world (clock_reads example_world))"
  let ?d1 = "assembled_params (heap example_world 1) ''/p''
      (clock_ms example_world (clock_reads example_world))"
  have m2: "(''tags'', PyList [PyObject ''2024-01-01'' ''datetime.date(2024, 1, 1)'']) \<in> set ?d2"
    by code_simp
  have j2: "json_dumps (PyList [PyObject ''2024-01-01'' ''datetime.date(2024, 1, 1)'']) = Inl TypeError"
    by code_simp
  have a2: "\<exists>(k, v) \<in> set ?d2. isinstance_dict_list v \<and> isl (json_dumps v)"
    by (rule bexI [OF _ m2]) (simp add: j2)
  have n: "length (str_digits 1700000000000) = 13"
    by code_simp
  have d2: "?d2 = [(''tags'', PyList [PyObject ''2024-01-01'' ''datetime.date(2024, 1, 1)'']),
      (''apiPath'', PyStr ''%2Fp''), (''appId'', PyStr ''API_AUTH_WEB''),
      (''timestamp'', PyInt 1700000000000)]"
    by code_simp
  have d1: "?d1 = [(''when'', PyObject ''2024-01-01'' ''datetime.date(2024, 1, 1)''),
      (''apiPath'', PyStr ''%2Fp''), (''appId'', PyStr ''API_AUTH_WEB''),
      (''timestamp'', PyInt 1700000000000)]"
    by code_simp
  have l2: "\<forall>(k, v) \<in> set ?d2. ints_within_limit v"
    unfolding d2 by (simp add: n)
  have m1: "(''when'', PyObject ''2024-01-01'' ''datetime.date(2024, 1, 1)'') \<in> set ?d1"
    by code_simp
  have j1: "json_dumps (PyObject ''2024-01-01'' ''datetime.date(2024, 1, 1)'') = Inl TypeError"
    by code_simp
  have l1: "\<forall>(k, v) \<in> set ?d1. ints_within_limit v \<and> (isinstance_dict_list v \<longrightarrow> \<not> isl (json_dumps v))"
    unfolding d1 by (simp add: n)
  have b1: "\<exists>(k, v) \<in> set ?d1. k \<noteq> ''signature'' \<and> isl (json_dumps v)"
    by (rule bexI [OF _ m1]) (simp add: j1)
  have c1: "canonicalize ?d1 =
        Inr ''apiPath=%2Fp&appId=API_AUTH_WEB&timestamp=1700000000000&when=2024-01-01''"
    by code_simp
  note t2 = serialization_error_points [of example_world 2 "''/p''" toy_lib,
      THEN conjunct1, THEN mp, OF a2]
  note t1 = serialization_error_points [of example_world 1 "''/p''" toy_lib,
      THEN conjunct2, THEN conjunct1, THEN mp, OF conjI [OF l1 b1]]
  from t2 l2 have r2: "fst (crypto_data toy_lib 2 ''/p'' example_world) = Inl TypeError"
    "trace (snd (crypto_data toy_lib 2 ''/p'' example_world)) =
        trace example_world @ [ClockRead (clock_ms example_world (clock_reads example_world))]"
    by blast+
  from t1 c1 have r1: "fst (crypto_data toy_lib 1 ''/p'' example_world) = Inl TypeError"
    "trace (snd (crypto_data toy_lib 1 ''/p'' example_world)) = trace example_world @
          [ClockRead (clock_ms example_world (clock_reads example_world)),
           HmacMd5 (utf8_encode SECRET)
             (utf8_encode ''apiPath=%2Fp&appId=API_AUTH_WEB&timestamp=1700000000000&when=2024-01-01''),
           Urandom (map (entropy example_world)
             [entropy_used example_world ..< entropy_used example_world + 16]),
           AesNew (map (entropy example_world)
             [entropy_used example_world ..< entropy_used example_world + 16]) (replicate 16 0)]"
    by auto
  from m2 j2 r2 m1 j1 c1 r1 show ?thesis by (intro conjI)
qed


text \<open>
  The claim as stated fails: a dict whose entry \<open>when\<close> holds a value that is not
  serialisable makes \<open>_crypto_data\<close> raise the error only after the HMAC call, the
  generation of the key and the creation of the cipher.
\<close>

theorem serialization_error_after_key_generation:
  "dict_get (heap example_world 1) ''when''
      = Some (PyObject ''2024-01-01'' ''datetime.date(2024, 1, 1)'')
   \<and> json_dumps (PyDict (heap example_world 1)) = Inl TypeError
   \<and> fst (crypto_data toy_lib 1 ''/p'' example_world) = Inl TypeError
   \<and> trace example_world = []
   \<and> trace (snd (crypto_data toy_lib 1 ''/p'' example_world)) =
        [ClockRead 1700000000000,
         HmacMd5 (utf8_encode SECRET)
           (utf8_encode ''apiPath=%2Fp&appId=API_AUTH_WEB&timestamp=1700000000000&when=2024-01-01''),
         Urandom [0, 1, 2, 3, 4, 5, 6, 7, 8, 9, 10, 11, 12, 13, 14, 15],
         AesNew [0, 1, 2, 3, 4, 5, 6, 7, 8, 9, 10, 11, 12, 13, 14, 15] (replicate 16 0)]"
proof -
  have a: "dict_get (heap example_world 1) ''when''
      = Some (PyObject ''2024-01-01'' ''datetime.date(2024, 1, 1)'')"
    by code_simp
  have b: "json_dumps (PyDict (heap example_world 1)) = Inl TypeError"
    by code_simp
  have c: "fst (crypto_data toy_lib 1 ''/p'' example_world) = Inl TypeError"
    by code_simp
  have d: "trace example_world = []"
    by code_simp
  have e: "trace (snd (crypto_data toy_lib 1 ''/p'' example_world)) =
        [ClockRead 1700000000000,
         HmacMd5 (utf8_encode SECRET)
           (utf8_encode ''apiPath=%2Fp&appId=API_AUTH_WEB&timestamp=1700000000000&when=2024-01-01''),
         Urandom [0, 1, 2, 3, 4, 5, 6, 7, 8, 9, 10, 11, 12, 13, 14, 15],
         AesNew [0, 1, 2, 3, 4, 5, 6, 7, 8, 9, 10, 11, 12, 13, 14, 15] (replicate 16 0)]"
    by code_simp
  from a b c d e show ?thesis by blast
qed

subsection \<open>The timestamp\<close>

lemma dict_get_assembled_timestamp:
  "dict_get (assembled_params d path t) ''timestamp'' = Some (PyInt t)"
  by (simp add: assembled_params_def dict_get_setitem)

lemma dict_get_signed:
  "dict_get (signed_params L d path t s) k =
     (if k = ''signature'' then Some (PyStr (signature_of L s))
      else dict_get (assembled_params d path t) k)"
  by (simp add: signed_params_def dict_get_setitem)

lemma canonicalize_timestamp_part:
  assumes "canonicalize (assembled_params d path t) = Inr s"
  shows "\<exists>parts. sign_parts (assembled_params d path t) [] = Inr parts
           \<and> ''timestamp='' @ str_int t \<in> set parts
           \<and> s = join ''&'' (sort parts)"
proof -
  from assms obtain parts where
    p: "sign_parts (assembled_params d path t) [] = Inr parts" and s: "s = join ''&'' (sort parts)"
    unfolding canonicalize_def by (auto split: sum.splits)
  from sign_parts_member [OF p dict_get_assembled_timestamp]
  have "''timestamp='' @ str_int t \<in> set parts"
    by (auto simp: sign_value_def int_to_str_def split: if_splits)
  with p s show ?thesis by blast
qed


text \<open>
  Claim C7. In every call of \<open>_crypto_data\<close> the clock is read exactly once. The
  value read is the \<open>timestamp\<close> entry of the dict; the message given to the HMAC is
  the signing string with the part \<open>timestamp=\<close> followed by that value, and the
  plaintext given to the cipher is the padded JSON text of the dict holding that entry.
\<close>

theorem timestamp_captured_once:
  "\<exists>evs. trace (snd (crypto_data L p path w)) = trace w @ evs
     \<and> filter (\<lambda>e. case e of ClockRead t \<Rightarrow> True | _ \<Rightarrow> False) evs
          = [ClockRead (clock_ms w (clock_reads w))]
     \<and> clock_reads (snd (crypto_data L p path w)) = Suc (clock_reads w)
     \<and> dict_get (heap (snd (crypto_data L p path w)) p) ''timestamp''
          = Some (PyInt (clock_ms w (clock_reads w)))
     \<and> (\<forall>k msg. HmacMd5 k msg \<in> set evs \<longrightarrow>
          (\<exists>parts. sign_parts (assembled_params (heap w p) path (clock_ms w (clock_reads w))) [] = Inr parts
             \<and> ''timestamp='' @ str_int (clock_ms w (clock_reads w)) \<in> set parts
             \<and> msg = utf8_encode (join ''&'' (sort parts))))
     \<and> (\<forall>padded. AesEncrypt padded \<in> set evs \<longrightarrow>
          (\<exists>js. json_dumps (PyDict (heap (snd (crypto_data L p path w)) p)) = Inr js
             \<and> pad_pkcs7 (utf8_encode js) 16 = Inr padded))"
proof (cases rule: crypto_data_cases [of w p path L])
  case (sign_error e)
  then show ?thesis by (simp add: dict_get_assembled_timestamp)
next
  case (dumps_error s e)
  then show ?thesis
    using canonicalize_timestamp_part [OF dumps_error(1)]
    by (auto simp: dict_get_signed dict_get_assembled_timestamp)
next
  case (import_error s js padded)
  then show ?thesis
    using canonicalize_timestamp_part [OF import_error(1)]
    by (auto simp: dict_get_signed dict_get_assembled_timestamp)
next
  case (oaep_error s js padded pk)
  then show ?thesis
    using canonicalize_timestamp_part [OF oaep_error(1)]
    by (auto simp: dict_get_signed dict_get_assembled_timestamp)
next
  case (ok s js padded pk ct)
  then show ?thesis
    using canonicalize_timestamp_part [OF ok(1)]
    by (auto simp: dict_get_signed dict_get_assembled_timestamp)
qed

theorem timestamp_captured_once_witness:
  "\<exists>evs. trace (snd (crypto_data toy_lib 0 ''/p'' example_world)) = trace example_world @ evs
     \<and> filter (\<lambda>e. case e of ClockRead t \<Rightarrow> True | _ \<Rightarrow> False) evs = [ClockRead 1700000000000]
     \<and> (\<exists>k msg. HmacMd5 k msg \<in> set evs)
     \<and> (\<exists>padded. AesEncrypt padded \<in> set evs)
     \<and> dict_get (heap (snd (crypto_data toy_lib 0 ''/p'' example_world)) 0) ''timestamp''
          = Some (PyInt 1700000000000)"
proof -
  have c: "clock_ms example_world (clock_reads example_world) = 1700000000000"
    by (simp add: example_world_def)
  from example_succeeds obtain env w' where
    r: "crypto_data toy_lib 0 ''/p'' example_world = (Inr env, w')" by blast
  have h: "\<exists>k msg padded. HmacMd5 k msg \<in> set (trace w') \<and> AesEncrypt padded \<in> set (trace w')"
    by (cases rule: crypto_data_cases [of example_world 0 "''/p''" toy_lib]) (use r in auto)
  have t: "trace example_world = []" by (simp add: example_world_def)
  from timestamp_captured_once [of toy_lib 0 "''/p''" example_world] h r c t
  show ?thesis by auto
qed


subsection \<open>The signature\<close>

text \<open>
  Claim C4. Whenever the signing string \<open>s\<close> can be built, the entry \<open>signature\<close> of
  the dict is the hexadecimal digest of the HMAC, with MD5 as the digest, of \<open>s\<close> under
  the key \<open>SECRET\<close>, both encoded as UTF-8. The digest text uses the digits \<open>0\<close> to \<open>9\<close>
  and the lower-case letters \<open>a\<close> to \<open>f\<close> only. The HMAC call comes before any
  encryption call, and what is encrypted is the padded JSON text of the dict that holds
  the signature. Two calls with the same signing string insert the same signature.
\<close>

theorem signature_is_hmac_md5_hex:
  "canonicalize (assembled_params (heap w p) path (clock_ms w (clock_reads w))) = Inr s \<longrightarrow>
     dict_get (heap (snd (crypto_data L p path w)) p) ''signature''
       = Some (PyStr (hexdigest (hmac_digest (md5 L) (utf8_encode SECRET) (utf8_encode s))))
   \<and> set (hexdigest (hmac_digest (md5 L) (utf8_encode SECRET) (utf8_encode s)))
         \<subseteq> set ''0123456789abcdef''
   \<and> (\<exists>evs. trace (snd (crypto_data L p path w)) =
          trace w @ ClockRead (clock_ms w (clock_reads w))
            # HmacMd5 (utf8_encode SECRET) (utf8_encode s) # evs
        \<and> (\<forall>padded. AesEncrypt padded \<in> set evs \<longrightarrow>
             (\<exists>js. json_dumps (PyDict (heap (snd (crypto_data L p path w)) p)) = Inr js
                \<and> pad_pkcs7 (utf8_encode js) 16 = Inr padded))
        \<and> (\<forall>env. fst (crypto_data L p path w) = Inr env \<longrightarrow> (\<exists>padded. AesEncrypt padded \<in> set evs)))
   \<and> (\<forall>w2 p2 path2.
         canonicalize (assembled_params (heap w2 p2) path2 (clock_ms w2 (clock_reads w2))) = Inr s \<longrightarrow>
         dict_get (heap (snd (crypto_data L p2 path2 w2)) p2) ''signature''
           = dict_get (heap (snd (crypto_data L p path w)) p) ''signature'')"
proof
  assume c: "canonicalize (assembled_params (heap w p) path (clock_ms w (clock_reads w))) = Inr s"
  have sig: "dict_get (heap (snd (crypto_data L q pth v)) q) ''signature''
       = Some (PyStr (hexdigest (hmac_digest (md5 L) (utf8_encode SECRET) (utf8_encode s))))"
    if "canonicalize (assembled_params (heap v q) pth (clock_ms v (clock_reads v))) = Inr s"
    for q pth v
    by (cases rule: crypto_data_cases [of v q pth L])
       (use that in \<open>simp_all add: dict_get_signed signature_of_def\<close>)
  have tr: "\<exists>evs. trace (snd (crypto_data L p path w)) =
          trace w @ ClockRead (clock_ms w (clock_reads w))
            # HmacMd5 (utf8_encode SECRET) (utf8_encode s) # evs
        \<and> (\<forall>padded. AesEncrypt padded \<in> set evs \<longrightarrow>
             (\<exists>js. json_dumps (PyDict (heap (snd (crypto_data L p path w)) p)) = Inr js
                \<and> pad_pkcs7 (utf8_encode js) 16 = Inr padded))
        \<and> (\<forall>env. fst (crypto_data L p path w) = Inr env \<longrightarrow> (\<exists>padded. AesEncrypt padded \<in> set evs))"
    by (cases rule: crypto_data_cases [of w p path L]) (use c in auto)
  show "dict_get (heap (snd (crypto_data L p path w)) p) ''signature''
       = Some (PyStr (hexdigest (hmac_digest (md5 L) (utf8_encode SECRET) (utf8_encode s))))
   \<and> set (hexdigest (hmac_digest (md5 L) (utf8_encode SECRET) (utf8_encode s)))
         \<subseteq> set ''0123456789abcdef''
   \<and> (\<exists>evs. trace (snd (crypto_data L p path w)) =
          trace w @ ClockRead (clock_ms w (clock_reads w))
            # HmacMd5 (utf8_encode SECRET) (utf8_encode s) # evs
        \<and> (\<forall>padded. AesEncrypt padded \<in> set evs \<longrightarrow>
             (\<exists>js. json_dumps (PyDict (heap (snd (crypto_data L p path w)) p)) = Inr js
                \<and> pad_pkcs7 (utf8_encode js) 16 = Inr padded))
        \<and> (\<forall>env. fst (crypto_data L p path w) = Inr env \<longrightarrow> (\<exists>padded. AesEncrypt padded \<in> set evs)))
   \<and> (\<forall>w2 p2 path2.
         canonicalize (assembled_params (heap w2 p2) path2 (clock_ms w2 (clock_reads w2))) = Inr s \<longrightarrow>
         dict_get (heap (snd (crypto_data L p2 path2 w2)) p2) ''signature''
           = dict_get (heap (snd (crypto_data L p path w)) p) ''signature'')"
    using sig [OF c] sig hexdigest_chars tr by (intro conjI allI impI) simp_all
qed

theorem signature_is_hmac_md5_hex_witness:
  "canonicalize (assembled_params (heap example_world 0) ''/p''
      (clock_ms example_world (clock_reads example_world))) =
        Inr ''answerResult=1&apiPath=%2Fp&appId=API_AUTH_WEB&channelId=APP&timestamp=1700000000000''
   \<and> (\<exists>env. fst (crypto_data toy_lib 0 ''/p'' example_world) = Inr env)
   \<and> dict_get (heap (snd (crypto_data toy_lib 0 ''/p'' example_world)) 0) ''signature''
       = Some (PyStr ''00000000000000000000000000007450'')"
proof -
  have c: "canonicalize (assembled_params (heap example_world 0) ''/p''
      (clock_ms example_world (clock_reads example_world))) =
        Inr ''answerResult=1&apiPath=%2Fp&appId=API_AUTH_WEB&channelId=APP&timestamp=1700000000000''"
    by code_simp
  have h: "hexdigest (hmac_digest (md5 toy_lib) (utf8_encode SECRET) (utf8_encode
      ''answerResult=1&apiPath=%2Fp&appId=API_AUTH_WEB&channelId=APP&timestamp=1700000000000''))
        = ''00000000000000000000000000007450''"
    by code_simp
  have e: "\<exists>env. fst (crypto_data toy_lib 0 ''/p'' example_world) = Inr env"
    using example_succeeds by auto
  show ?thesis
    using c e signature_is_hmac_md5_hex [of example_world 0 "''/p''"
      "''answerResult=1&apiPath=%2Fp&appId=API_AUTH_WEB&channelId=APP&timestamp=1700000000000''" toy_lib]
    unfolding h by blast
qed

subsection \<open>The caller's payload\<close>

lemma crypto_data_frame:
  "r \<noteq> p \<Longrightarrow> heap (snd (crypto_data L p path w)) r = heap w r"
  by (cases rule: crypto_data_cases [of w p path L]) simp_all

lemma crypto_data_next_ref:
  "next_ref (snd (crypto_data L p path w)) = next_ref w"
  by (cases rule: crypto_data_cases [of w p path L]) simp_all

lemma crypto_data_api_path:
  "dict_get (heap (snd (crypto_data L p path w)) p) ''apiPath'' = Some (PyStr (quote path))"
  by (cases rule: crypto_data_cases [of w p path L])
     (simp_all add: dict_get_signed assembled_params_def dict_get_setitem)

lemma send_request_heap:
  "heap (snd (send_request L self path payload w)) =
     heap (snd (crypto_data L (next_ref w) path
       (w\<lparr>heap := (heap w)(next_ref w := heap w payload), next_ref := Suc (next_ref w)\<rparr>)))"
proof -
  obtain res w2 where r: "crypto_data L (next_ref w) path
       (w\<lparr>heap := (heap w)(next_ref w := heap w payload), next_ref := Suc (next_ref w)\<rparr>) = (res, w2)"
    by (cases "crypto_data L (next_ref w) path
       (w\<lparr>heap := (heap w)(next_ref w := heap w payload), next_ref := Suc (next_ref w)\<rparr>)")
  show ?thesis
  proof (cases res)
    case (Inl e)
    then show ?thesis
      using r by (simp add: send_request_def dict_copy_def new_dict_def Let_def)
  next
    case (Inr encrypted)
    then show ?thesis
      using r
      by (cases "network (log_event (HttpPost (HOST @ path) encrypted (get_headers self)) w2)
                   (HOST @ path) encrypted (get_headers self)")
         (simp_all add: send_request_def dict_copy_def new_dict_def Let_def log_event_def)
  qed
qed

lemma send_request_frame:
  "r \<noteq> next_ref w \<Longrightarrow> heap (snd (send_request L self path payload w)) r = heap w r"
  unfolding send_request_heap by (simp add: crypto_data_frame)


text \<open>
  Claim C9. \<open>_send_request\<close> leaves the dict of the caller as it was: the only dict
  that changes is the copy it allocates, which receives the fields that \<open>_crypto_data\<close>
  inserts in place, as a direct call of \<open>_crypto_data\<close> on a dict shows. After
  \<open>sign_in\<close> the payload dict holds its eight entries and every older dict is unchanged.
\<close>

theorem send_request_keeps_payload:
  "(payload < next_ref w \<longrightarrow>
      heap (snd (send_request L self path payload w)) payload = heap w payload)
   \<and> (\<forall>r. r \<noteq> next_ref w \<longrightarrow> heap (snd (send_request L self path payload w)) r = heap w r)
   \<and> dict_get (heap (snd (send_request L self path payload w)) (next_ref w)) ''apiPath''
        = Some (PyStr (quote path))
   \<and> dict_get (heap (snd (crypto_data L payload path w)) payload) ''apiPath''
        = Some (PyStr (quote path))
   \<and> (case sign_in L self w of
        (pl, res, w') \<Rightarrow>
          pl = next_ref w
          \<and> heap w' pl =
              [(''answerResult'', PyInt (answer_result self)),
               (''channelId'', PyStr (channel_id self)),
               (''merchantCode'', PyStr (merchant_code self)),
               (''storeCode'', PyStr (store_code self)),
               (''sysId'', PyStr (sys_id self)),
               (''transactionUuid'', PyStr (transaction_uuid self)),
               (''inviteCode'', PyStr (invite_code self)),
               (''token'', PyStr (token self))]
          \<and> (\<forall>r. r < next_ref w \<longrightarrow> heap w' r = heap w r))"
proof (intro conjI)
  show "payload < next_ref w \<longrightarrow>
      heap (snd (send_request L self path payload w)) payload = heap w payload"
    by (simp add: send_request_frame)
  show "\<forall>r. r \<noteq> next_ref w \<longrightarrow> heap (snd (send_request L self path payload w)) r = heap w r"
    by (simp add: send_request_frame)
  show "dict_get (heap (snd (send_request L self path payload w)) (next_ref w)) ''apiPath''
        = Some (PyStr (quote path))"
    unfolding send_request_heap by (rule crypto_data_api_path)
  show "dict_get (heap (snd (crypto_data L payload path w)) payload) ''apiPath''
        = Some (PyStr (quote path))"
    by (rule crypto_data_api_path)
  show "case sign_in L self w of
        (pl, res, w') \<Rightarrow>
          pl = next_ref w
          \<and> heap w' pl =
              [(''answerResult'', PyInt (answer_result self)),
               (''channelId'', PyStr (channel_id self)),
               (''merchantCode'', PyStr (merchant_code self)),
               (''storeCode'', PyStr (store_code self)),
               (''sysId'', PyStr (sys_id self)),
               (''transactionUuid'', PyStr (transaction_uuid self)),
               (''inviteCode'', PyStr (invite_code self)),
               (''token'', PyStr (token self))]
          \<and> (\<forall>r. r < next_ref w \<longrightarrow> heap w' r = heap w r)"
  proof -
    define d where "d =
              [(''answerResult'', PyInt (answer_result self)),
               (''channelId'', PyStr (channel_id self)),
               (''merchantCode'', PyStr (merchant_code self)),
               (''storeCode'', PyStr (store_code self)),
               (''sysId'', PyStr (sys_id self)),
               (''transactionUuid'', PyStr (transaction_uuid self)),
               (''inviteCode'', PyStr (invite_code self)),
               (''token'', PyStr (token self))]"
    define w1 where "w1 = w\<lparr>heap := (heap w)(next_ref w := d), next_ref := Suc (next_ref w)\<rparr>"
    define out where "out = send_request L self ''/api/points/saveQuestionSignin'' (next_ref w) w1"
    have s: "sign_in L self w = (next_ref w, fst out, snd out)"
      by (simp add: sign_in_def new_dict_def Let_def d_def w1_def out_def)
    have n: "next_ref w1 = Suc (next_ref w)" by (simp add: w1_def)
    have f: "heap (snd out) r = heap w1 r" if "r \<noteq> Suc (next_ref w)" for r
      unfolding out_def using that send_request_frame [of r w1] n by simp
    have a: "heap (snd out) (next_ref w) = d"
      using f [of "next_ref w"] by (simp add: w1_def)
    have b: "heap (snd out) r = heap w r" if "r < next_ref w" for r
      using f [of r] that by (simp add: w1_def)
    show ?thesis
      unfolding s d_def [symmetric] using a b by (simp add: case_prod_beta)
  qed
qed


theorem send_request_keeps_payload_witness:
  "(0::nat) < next_ref example_world
   \<and> heap (snd (send_request toy_lib example_api ''/p'' 0 example_world)) 0
       = [(''answerResult'', PyInt 1), (''channelId'', PyStr ''APP''), (''inviteCode'', PyNone)]
   \<and> dict_get (heap (snd (crypto_data toy_lib 0 ''/p'' example_world)) 0) ''apiPath''
       = Some (PyStr ''%2Fp'')"
proof -
  have a: "(0::nat) < next_ref example_world"
    by (simp add: example_world_def)
  have b: "heap example_world 0
       = [(''answerResult'', PyInt 1), (''channelId'', PyStr ''APP''), (''inviteCode'', PyNone)]"
    by (simp add: example_world_def example_heap_def)
  have c: "quote ''/p'' = ''%2Fp''"
    by code_simp
  show ?thesis
    using a send_request_keeps_payload [of 0 example_world toy_lib example_api "''/p''"]
    unfolding b c by blast
qed

subsection \<open>Null entries\<close>

lemma toy_lib_succeeds:
  assumes "canonicalize (assembled_params (heap w p) path (clock_ms w (clock_reads w))) = Inr s"
    and "json_dumps (PyDict (signed_params toy_lib (heap w p) path (clock_ms w (clock_reads w)) s)) = Inr js"
  shows "\<not> isl (fst (crypto_data toy_lib p path w))"
proof (cases rule: crypto_data_cases [of w p path toy_lib])
  case (sign_error e)
  then show ?thesis using assms by simp
next
  case (dumps_error s e)
  then show ?thesis using assms by simp
next
  case (import_error s js padded)
  then show ?thesis by (simp add: toy_lib_def)
next
  case (oaep_error s js padded pk)
  then show ?thesis by (simp add: toy_lib_def)
next
  case (ok s js padded pk ct)
  then show ?thesis by simp
qed

lemma crypto_data_signed_heap:
  assumes "canonicalize (assembled_params (heap w p) path (clock_ms w (clock_reads w))) = Inr s"
  shows "heap (snd (crypto_data L p path w)) p
           = signed_params L (heap w p) path (clock_ms w (clock_reads w)) s"
  by (cases rule: crypto_data_cases [of w p path L]) (use assms in simp_all)

lemma crypto_data_encrypt_event:
  assumes "\<not> isl (fst (crypto_data L p path w))"
    and "canonicalize (assembled_params (heap w p) path (clock_ms w (clock_reads w))) = Inr s"
    and "json_dumps (PyDict (signed_params L (heap w p) path (clock_ms w (clock_reads w)) s)) = Inr js"
  shows "AesEncrypt (utf8_encode js @ replicate (16 - length (utf8_encode js) mod 16)
            (of_nat (16 - length (utf8_encode js) mod 16)))
          \<in> set (trace (snd (crypto_data L p path w)))"
  by (cases rule: crypto_data_cases [of w p path L])
     (use assms in \<open>auto simp: pad_pkcs7_16\<close>)

lemma sign_parts_filter_null:
  "sign_parts (filter (\<lambda>(k, v). v \<noteq> PyNone) d) acc = sign_parts d acc"
  by (induction d acc rule: sign_parts.induct) (auto split: sum.splits)

lemma canonicalize_filter_null:
  "canonicalize (filter (\<lambda>(k, v). v \<noteq> PyNone) d) = canonicalize d"
  unfolding canonicalize_def sign_parts_filter_null by (rule refl)

lemma json_pairs_null_member:
  "json_pairs d = Inr ss \<Longrightarrow> (k, PyNone) \<in> set d \<Longrightarrow> json_string k @ '':null'' \<in> set ss"
proof (induction d arbitrary: ss)
  case Nil
  then show ?case by simp
next
  case (Cons a d)
  obtain k' v where a: "a = (k', v)" by (cases a)
  from Cons.prems(1) obtain t ts where
    t: "json_dumps v = Inr t" and ts: "json_pairs d = Inr ts"
    and ss: "ss = (json_string k' @ '':'' @ t) # ts"
    by (auto simp: a split: sum.splits)
  show ?case
  proof (cases "(k, PyNone) = a")
    case True
    then show ?thesis using t ss by (auto simp: a)
  next
    case False
    then have "(k, PyNone) \<in> set d" using Cons.prems(2) by auto
    from Cons.IH [OF ts this] show ?thesis by (simp add: ss)
  qed
qed

lemma join_member: "x \<in> set ss \<Longrightarrow> \<exists>pre suf. join sep ss = pre @ x @ suf"
proof (induction sep ss rule: join.induct)
  case (1 sep)
  then show ?case by simp
next
  case (2 sep y)
  then have "join sep [y] = [] @ x @ []" by simp
  then show ?case by blast
next
  case (3 sep y z zs)
  show ?case
  proof (cases "x = y")
    case True
    then have "join sep (y # z # zs) = [] @ x @ (sep @ join sep (z # zs))" by simp
    then show ?thesis by blast
  next
    case False
    then have "x \<in> set (z # zs)" using 3 by auto
    from 3(1) [OF this] obtain pre suf where "join sep (z # zs) = pre @ x @ suf" by blast
    then have "join sep (y # z # zs) = (y @ sep @ pre) @ x @ suf" by simp
    then show ?thesis by blast
  qed
qed

lemma json_dict_null_entry:
  assumes "json_dumps (PyDict d) = Inr js" and "dict_get d k = Some PyNone"
  shows "\<exists>pre suf. js = pre @ json_string k @ '':null'' @ suf"
proof -
  from assms(1) obtain ss where
    ss: "json_pairs d = Inr ss" and js: "js = ''{'' @ join '','' ss @ ''}''"
    by (auto split: sum.splits)
  from json_pairs_null_member [OF ss dict_get_in_set [OF assms(2)]]
  have "json_string k @ '':null'' \<in> set ss" .
  from join_member [OF this, of "'',''"]
  obtain pre suf where "join '','' ss = pre @ (json_string k @ '':null'') @ suf" by blast
  then have "js = (''{'' @ pre) @ json_string k @ '':null'' @ (suf @ ''}'')"
    by (simp add: js)
  then show ?thesis by blast
qed

lemma dict_get_assembled_other:
  "k \<notin> {''apiPath'', ''appId'', ''timestamp''} \<Longrightarrow>
     dict_get (assembled_params d path t) k = dict_get d k"
  by (simp add: assembled_params_def dict_get_setitem)


text \<open>
  Claim C10, as amended. For every entry of the caller's dict whose value is \<open>None\<close>
  and whose key is not one of \<open>apiPath\<close>, \<open>appId\<close>, \<open>timestamp\<close> and \<open>signature\<close>:
  the entry is still \<open>None\<close> in the dict after the call, the message given to the HMAC
  is the signing string of the dict without its null entries, and the JSON text that is
  padded and encrypted contains the entry as \<open>"key":null\<close>.
\<close>

theorem null_entries_unsigned_but_sent:
  "dict_get (heap w p) k = Some PyNone
     \<and> k \<notin> {''apiPath'', ''appId'', ''timestamp'', ''signature''} \<longrightarrow>
   dict_get (heap (snd (crypto_data L p path w)) p) k = Some PyNone
   \<and> (\<exists>evs. trace (snd (crypto_data L p path w)) = trace w @ evs
        \<and> (\<forall>key msg. HmacMd5 key msg \<in> set evs \<longrightarrow>
             (\<exists>s. canonicalize (filter (\<lambda>(k', v). v \<noteq> PyNone)
                      (assembled_params (heap w p) path (clock_ms w (clock_reads w)))) = Inr s
                \<and> msg = utf8_encode s))
        \<and> (\<forall>padded. AesEncrypt padded \<in> set evs \<longrightarrow>
             (\<exists>js pre suf. json_dumps (PyDict (heap (snd (crypto_data L p path w)) p)) = Inr js
                \<and> pad_pkcs7 (utf8_encode js) 16 = Inr padded
                \<and> js = pre @ json_string k @ '':null'' @ suf))
        \<and> (\<forall>env. fst (crypto_data L p path w) = Inr env \<longrightarrow>
             (\<exists>key msg padded. HmacMd5 key msg \<in> set evs \<and> AesEncrypt padded \<in> set evs)))"
proof
  assume a: "dict_get (heap w p) k = Some PyNone
     \<and> k \<notin> {''apiPath'', ''appId'', ''timestamp'', ''signature''}"
  then have g1: "dict_get (assembled_params (heap w p) path (clock_ms w (clock_reads w))) k = Some PyNone"
    by (simp add: dict_get_assembled_other)
  have g2: "dict_get (signed_params L (heap w p) path (clock_ms w (clock_reads w)) s) k = Some PyNone" for s
    using a g1 by (simp add: dict_get_signed)
  note f = canonicalize_filter_null [of "assembled_params (heap w p) path (clock_ms w (clock_reads w))"]
  show "dict_get (heap (snd (crypto_data L p path w)) p) k = Some PyNone
   \<and> (\<exists>evs. trace (snd (crypto_data L p path w)) = trace w @ evs
        \<and> (\<forall>key msg. HmacMd5 key msg \<in> set evs \<longrightarrow>
             (\<exists>s. canonicalize (filter (\<lambda>(k', v). v \<noteq> PyNone)
                      (assembled_params (heap w p) path (clock_ms w (clock_reads w)))) = Inr s
                \<and> msg = utf8_encode s))
        \<and> (\<forall>padded. AesEncrypt padded \<in> set evs \<longrightarrow>
             (\<exists>js pre suf. json_dumps (PyDict (heap (snd (crypto_data L p path w)) p)) = Inr js
                \<and> pad_pkcs7 (utf8_encode js) 16 = Inr padded
                \<and> js = pre @ json_string k @ '':null'' @ suf))
        \<and> (\<forall>env. fst (crypto_data L p path w) = Inr env \<longrightarrow>
             (\<exists>key msg padded. HmacMd5 key msg \<in> set evs \<and> AesEncrypt padded \<in> set evs)))"
  proof (cases rule: crypto_data_cases [of w p path L])
    case (sign_error e)
    then show ?thesis using g1 by simp
  next
    case (dumps_error s e)
    then show ?thesis using g2 [of s] f by simp
  next
    case (import_error s js padded)
    from json_dict_null_entry [OF import_error(2) g2]
    obtain pre suf where "js = pre @ json_string k @ '':null'' @ suf" by blast
    with import_error show ?thesis using g2 [of s] f by auto
  next
    case (oaep_error s js padded pk)
    from json_dict_null_entry [OF oaep_error(2) g2]
    obtain pre suf where "js = pre @ json_string k @ '':null'' @ suf" by blast
    with oaep_error show ?thesis using g2 [of s] f by auto
  next
    case (ok s js padded pk ct)
    from json_dict_null_entry [OF ok(2) g2]
    obtain pre suf where "js = pre @ json_string k @ '':null'' @ suf" by blast
    with ok show ?thesis using g2 [of s] f by auto
  qed
qed

theorem null_entries_unsigned_but_sent_witness:
  "dict_get (heap example_world 0) ''inviteCode'' = Some PyNone
   \<and> ''inviteCode'' \<notin> {''apiPath'', ''appId'', ''timestamp'', ''signature''}
   \<and> \<not> isl (fst (crypto_data toy_lib 0 ''/p'' example_world))
   \<and> dict_get (heap (snd (crypto_data toy_lib 0 ''/p'' example_world)) 0) ''inviteCode'' = Some PyNone
   \<and> (\<exists>padded js pre suf.
         AesEncrypt padded \<in> set (trace (snd (crypto_data toy_lib 0 ''/p'' example_world)))
         \<and> pad_pkcs7 (utf8_encode js) 16 = Inr padded
         \<and> js = pre @ json_string ''inviteCode'' @ '':null'' @ suf)"
proof -
  have a: "dict_get (heap example_world 0) ''inviteCode'' = Some PyNone"
    by code_simp
  have b: "''inviteCode'' \<notin> {''apiPath'', ''appId'', ''timestamp'', ''signature''}"
    by simp
  from example_succeeds obtain env w' where
    r: "crypto_data toy_lib 0 ''/p'' example_world = (Inr env, w')" by blast
  then have f: "fst (crypto_data toy_lib 0 ''/p'' example_world) = Inr env" by simp
  then have ok: "\<not> isl (fst (crypto_data toy_lib 0 ''/p'' example_world))" by simp
  have t: "trace example_world = []" by (simp add: example_world_def)
  have ab: "dict_get (heap example_world 0) ''inviteCode'' = Some PyNone
     \<and> ''inviteCode'' \<notin> {''apiPath'', ''appId'', ''timestamp'', ''signature''}"
    using a b by (rule conjI)
  note th = null_entries_unsigned_but_sent
    [of example_world 0 "''inviteCode''" toy_lib "''/p''", THEN mp, OF ab]
  from th have e1:
    "dict_get (heap (snd (crypto_data toy_lib 0 ''/p'' example_world)) 0) ''inviteCode'' = Some PyNone"
    by (rule conjunct1)
  from th [THEN conjunct2] obtain evs where
    e2: "trace (snd (crypto_data toy_lib 0 ''/p'' example_world)) = trace example_world @ evs"
    and e3: "\<forall>padded. AesEncrypt padded \<in> set evs \<longrightarrow>
             (\<exists>js pre suf. json_dumps (PyDict (heap (snd (crypto_data toy_lib 0 ''/p'' example_world)) 0)) = Inr js
                \<and> pad_pkcs7 (utf8_encode js) 16 = Inr padded
                \<and> js = pre @ json_string ''inviteCode'' @ '':null'' @ suf)"
    and e4: "\<forall>env. fst (crypto_data toy_lib 0 ''/p'' example_world) = Inr env \<longrightarrow>
             (\<exists>key msg padded. HmacMd5 key msg \<in> set evs \<and> AesEncrypt padded \<in> set evs)"
    by (elim exE conjE)
  from e4 f obtain padded where p: "AesEncrypt padded \<in> set evs" by blast
  from e3 p obtain js pre suf where
    q: "pad_pkcs7 (utf8_encode js) 16 = Inr padded"
       "js = pre @ json_string ''inviteCode'' @ '':null'' @ suf"
    by blast
  have p': "AesEncrypt padded \<in> set (trace (snd (crypto_data toy_lib 0 ''/p'' example_world)))"
    unfolding e2 t using p by simp
  from p' q have x: "\<exists>padded js pre suf.
         AesEncrypt padded \<in> set (trace (snd (crypto_data toy_lib 0 ''/p'' example_world)))
         \<and> pad_pkcs7 (utf8_encode js) 16 = Inr padded
         \<and> js = pre @ json_string ''inviteCode'' @ '':null'' @ suf"
    by blast
  from a b ok e1 x show ?thesis by (intro conjI)
qed

text \<open>
  The claim as stated fails for the four keys that \<open>_crypto_data\<close> sets itself: a null
  entry \<open>signature\<close> is left out of the signing string and is then overwritten on
  line 88, so the encrypted JSON text holds the digest under that key, not \<open>null\<close>.
\<close>

theorem null_signature_entry_is_overwritten:
  \<open>dict_get (heap example_world 3) ''signature'' = Some PyNone
   \<and> \<not> isl (fst (crypto_data toy_lib 3 ''/p'' example_world))
   \<and> canonicalize (assembled_params (heap example_world 3) ''/p'' 1700000000000)
       = Inr ''apiPath=%2Fp&appId=API_AUTH_WEB&timestamp=1700000000000''
   \<and> json_dumps (PyDict (heap (snd (crypto_data toy_lib 3 ''/p'' example_world)) 3))
       = Inr ''{"signature":"0000000000000000000000000000ea50","apiPath":"%2Fp","appId":"API_AUTH_WEB","timestamp":1700000000000}''
   \<and> AesEncrypt (utf8_encode ''{"signature":"0000000000000000000000000000ea50","apiPath":"%2Fp","appId":"API_AUTH_WEB","timestamp":1700000000000}''
         @ replicate 14 14)
       \<in> set (trace (snd (crypto_data toy_lib 3 ''/p'' example_world)))\<close>
proof -
  have t: "clock_ms example_world (clock_reads example_world) = 1700000000000"
    by (simp add: example_world_def)
  have a: "dict_get (heap example_world 3) ''signature'' = Some PyNone"
    by code_simp
  have c: "canonicalize (assembled_params (heap example_world 3) ''/p'' 1700000000000)
       = Inr ''apiPath=%2Fp&appId=API_AUTH_WEB&timestamp=1700000000000''"
    by code_simp
  have j: \<open>json_dumps (PyDict (signed_params toy_lib (heap example_world 3) ''/p'' 1700000000000
        ''apiPath=%2Fp&appId=API_AUTH_WEB&timestamp=1700000000000''))
       = Inr ''{"signature":"0000000000000000000000000000ea50","apiPath":"%2Fp","appId":"API_AUTH_WEB","timestamp":1700000000000}''\<close>
    by code_simp
  have ok: "\<not> isl (fst (crypto_data toy_lib 3 ''/p'' example_world))"
    using toy_lib_succeeds [of example_world 3 "''/p''"] c j unfolding t by blast
  have h: "heap (snd (crypto_data toy_lib 3 ''/p'' example_world)) 3
      = signed_params toy_lib (heap example_world 3) ''/p'' 1700000000000
          ''apiPath=%2Fp&appId=API_AUTH_WEB&timestamp=1700000000000''"
    using crypto_data_signed_heap [of example_world 3 "''/p''"] c unfolding t by blast
  have l: \<open>16 - length (utf8_encode ''{"signature":"0000000000000000000000000000ea50","apiPath":"%2Fp","appId":"API_AUTH_WEB","timestamp":1700000000000}'') mod 16 = 14\<close>
    by code_simp
  have e: \<open>AesEncrypt (utf8_encode ''{"signature":"0000000000000000000000000000ea50","apiPath":"%2Fp","appId":"API_AUTH_WEB","timestamp":1700000000000}''
         @ replicate 14 14)
       \<in> set (trace (snd (crypto_data toy_lib 3 ''/p'' example_world)))\<close>
    using crypto_data_encrypt_event [OF ok, unfolded t, OF c j] unfolding l by simp
  from a ok c e show ?thesis unfolding h j by blast
qed

subsection \<open>Base64 decoding inverts encoding\<close>

lemma index_of_nth:
  "distinct xs \<Longrightarrow> n < length xs \<Longrightarrow> index_of (xs ! n) xs = Some n"
proof (induction xs arbitrary: n)
  case Nil
  then show ?case by simp
next
  case (Cons x xs)
  show ?case
  proof (cases n)
    case 0
    then show ?thesis by simp
  next
    case (Suc m)
    then have "xs ! m \<noteq> x" using Cons.prems by auto
    then show ?thesis using Suc Cons by auto
  qed
qed

lemma b64_alphabet_distinct:
  "distinct ''ABCDEFGHIJKLMNOPQRSTUVWXYZabcdefghijklmnopqrstuvwxyz0123456789+/''"
  by code_simp

lemma b64_alphabet_length:
  "length ''ABCDEFGHIJKLMNOPQRSTUVWXYZabcdefghijklmnopqrstuvwxyz0123456789+/'' = 64"
  by simp

lemma b64index_b64char: "n < 64 \<Longrightarrow> b64index (b64char n) = Some n"
  unfolding b64index_def b64char_def
  by (rule index_of_nth [OF b64_alphabet_distinct]) (simp only: b64_alphabet_length)

lemma b64_pad_not_in_alphabet:
  "CHR ''='' \<notin> set ''ABCDEFGHIJKLMNOPQRSTUVWXYZabcdefghijklmnopqrstuvwxyz0123456789+/''"
  by code_simp

lemma b64char_not_pad: "n < 64 \<Longrightarrow> b64char n \<noteq> CHR ''=''"
proof -
  assume "n < 64"
  then have "b64char n \<in> set ''ABCDEFGHIJKLMNOPQRSTUVWXYZabcdefghijklmnopqrstuvwxyz0123456789+/''"
    unfolding b64char_def by (intro nth_mem) (simp only: b64_alphabet_length)
  with b64_pad_not_in_alphabet show ?thesis by metis
qed

lemma split16: "y < 16 \<Longrightarrow> ((x::nat) * 16 + y) div 16 = x \<and> (x * 16 + y) mod 16 = y"
  by simp

lemma split4: "y < 4 \<Longrightarrow> ((x::nat) * 4 + y) div 4 = x \<and> (x * 4 + y) mod 4 = y"
  by simp

lemma sextets:
  fixes a b c :: nat
  assumes "a < 256" "b < 256" "c < 256"
  shows "a div 4 < 64" "a mod 4 * 16 + b div 16 < 64" "b mod 16 * 4 + c div 64 < 64" "c mod 64 < 64"
    "a mod 4 * 16 < 64" "b mod 16 * 4 < 64"
    "a div 4 * 4 + (a mod 4 * 16 + b div 16) div 16 = a"
    "(a mod 4 * 16 + b div 16) mod 16 * 16 + (b mod 16 * 4 + c div 64) div 4 = b"
    "(b mod 16 * 4 + c div 64) mod 4 * 64 + c mod 64 = c"
    "a div 4 * 4 + (a mod 4 * 16) div 16 = a"
    "(a mod 4 * 16 + b div 16) mod 16 * 16 + (b mod 16 * 4) div 4 = b"
proof -
  have b16: "b div 16 < 16" using assms(2) by simp
  have c64: "c div 64 < 4" using assms(3) by simp
  have a4: "a mod 4 < 4" by simp
  have bm: "b mod 16 < 16" by simp
  show "a div 4 < 64" using assms(1) by simp
  show "a mod 4 * 16 + b div 16 < 64" using a4 b16 by linarith
  show "b mod 16 * 4 + c div 64 < 64" using bm c64 by linarith
  show "c mod 64 < 64" by simp
  show "a mod 4 * 16 < 64" using a4 by linarith
  show "b mod 16 * 4 < 64" using bm by linarith
  show "a div 4 * 4 + (a mod 4 * 16 + b div 16) div 16 = a"
    using split16 [OF b16, of "a mod 4"] by simp
  show "(a mod 4 * 16 + b div 16) mod 16 * 16 + (b mod 16 * 4 + c div 64) div 4 = b"
    using split16 [OF b16, of "a mod 4"] split4 [OF c64, of "b mod 16"] by simp
  show "(b mod 16 * 4 + c div 64) mod 4 * 64 + c mod 64 = c"
    using split4 [OF c64, of "b mod 16"] by simp
  show "a div 4 * 4 + (a mod 4 * 16) div 16 = a" by simp
  show "(a mod 4 * 16 + b div 16) mod 16 * 16 + (b mod 16 * 4) div 4 = b"
    using split16 [OF b16, of "a mod 4"] by simp
qed

lemma unat_byte_less: "unat (a :: byte) < 256"
proof -
  have "unat a < 2 ^ LENGTH(8)" by (rule unsigned_less)
  then show ?thesis by simp
qed

lemma byte_of_unat: "(of_nat (unat (a :: byte)) :: byte) = a"
  by simp

lemma b64decode_group:
  assumes "x1 < 64" "x2 < 64" "x3 < 64" "x4 < 64"
  shows "b64decode (b64char x1 # b64char x2 # b64char x3 # b64char x4 # rest) =
     (case b64decode rest of
        None \<Rightarrow> None
      | Some bs \<Rightarrow>
          Some (of_nat (x1 * 4 + x2 div 16) # of_nat (x2 mod 16 * 16 + x3 div 4)
                # of_nat (x3 mod 4 * 64 + x4) # bs))"
  using assms by (simp only: b64decode.simps b64index_b64char b64char_not_pad
      prod.case option.case simp_thms if_False)

lemma b64decode_last2:
  assumes "x1 < 64" "x2 < 64" "x3 < 64"
  shows "b64decode [b64char x1, b64char x2, b64char x3, CHR ''=''] =
     Some [of_nat (x1 * 4 + x2 div 16), of_nat (x2 mod 16 * 16 + x3 div 4)]"
  using assms by (simp only: b64decode.simps b64index_b64char b64char_not_pad
      prod.case option.case simp_thms if_False if_True)

lemma b64decode_last1:
  assumes "x1 < 64" "x2 < 64"
  shows "b64decode [b64char x1, b64char x2, CHR ''='', CHR ''=''] =
     Some [of_nat (x1 * 4 + x2 div 16)]"
  using assms by (simp only: b64decode.simps b64index_b64char
      prod.case option.case simp_thms if_True)

lemma b64decode_b64encode: "b64decode (b64encode bs) = Some bs"
proof (induction bs rule: b64encode.induct)
  case (1 a b c rest)
  note s = sextets [OF unat_byte_less [of a] unat_byte_less [of b] unat_byte_less [of c]]
  show ?case
    unfolding b64encode.simps b64decode_group [OF s(1-4)] 1 option.case s(7-9) byte_of_unat
    by (rule refl)
next
  case (2 a b)
  note s = sextets [OF unat_byte_less [of a] unat_byte_less [of b] unat_byte_less [of 0]]
  show ?case
    unfolding b64encode.simps b64decode_last2 [OF s(1,2,6)] s(7,11) byte_of_unat
    by (rule refl)
next
  case (3 a)
  note s = sextets [OF unat_byte_less [of a] unat_byte_less [of 0] unat_byte_less [of 0]]
  show ?case
    unfolding b64encode.simps b64decode_last1 [OF s(1,5)] s(10) byte_of_unat
    by (rule refl)
next
  case 4
  show ?case by simp
qed

subsection \<open>CBC decryption inverts encryption\<close>

lemma length_xor_block: "length a = length b \<Longrightarrow> length (xor_block a b) = length a"
  by (simp add: xor_block_def)

lemma xor_block_cancel: "length a = length b \<Longrightarrow> xor_block (xor_block a b) b = a"
  unfolding xor_block_def
  by (induction a b rule: list_induct2) (simp_all add: xor.assoc)

lemma blocks16_aligned:
  "length bs mod 16 = 0 \<Longrightarrow> (\<forall>b \<in> set (blocks16 bs). length b = 16) \<and> concat (blocks16 bs) = bs"
proof (induction bs rule: blocks16.induct)
  case (1 bs)
  show ?case
  proof (cases "bs = []")
    case True
    then show ?thesis by (simp add: blocks16.simps)
  next
    case False
    then have l: "16 \<le> length bs" using "1.prems" by (cases "length bs < 16") auto
    then have m: "length (drop 16 bs) mod 16 = 0"
      using "1.prems" l by (metis le_mod_geq length_drop)
    have t: "length (take 16 bs) = 16" using l by simp
    from "1.IH" [OF False m] t show ?thesis
      by (subst (1 2) blocks16.simps) (simp add: False)
  qed
qed

lemma blocks16_concat:
  "\<forall>c \<in> set cs. length c = 16 \<Longrightarrow> blocks16 (concat cs) = cs"
proof (induction cs)
  case Nil
  show ?case by (simp add: blocks16.simps)
next
  case (Cons c cs)
  then have c: "length c = 16" and r: "blocks16 (concat cs) = cs" by simp_all
  then have "c \<noteq> []" by auto
  then show ?case
    by (subst blocks16.simps) (simp add: c r)
qed

lemma cbc_chain_blocks:
  assumes "\<And>b. length b = 16 \<Longrightarrow> length (E b) = 16"
  shows "length prev = 16 \<Longrightarrow> \<forall>b \<in> set bs. length b = 16 \<Longrightarrow>
    \<forall>c \<in> set (cbc_chain E prev bs). length c = 16"
proof (induction bs arbitrary: prev)
  case Nil
  show ?case by simp
next
  case (Cons b bs)
  have x: "length (xor_block b prev) = 16" using Cons.prems by (simp add: length_xor_block)
  have e: "length (E (xor_block b prev)) = 16" by (rule assms [OF x])
  from Cons.IH [OF e] Cons.prems e show ?case by (simp add: Let_def)
qed

lemma cbc_unchain_chain:
  assumes "\<And>b. length b = 16 \<Longrightarrow> length (E b) = 16"
    and "\<And>b. length b = 16 \<Longrightarrow> D (E b) = b"
  shows "length prev = 16 \<Longrightarrow> \<forall>b \<in> set bs. length b = 16 \<Longrightarrow>
    cbc_unchain D prev (cbc_chain E prev bs) = bs"
proof (induction bs arbitrary: prev)
  case Nil
  show ?case by simp
next
  case (Cons b bs)
  have x: "length (xor_block b prev) = 16" using Cons.prems by (simp add: length_xor_block)
  have e: "length (E (xor_block b prev)) = 16" by (rule assms(1) [OF x])
  have d: "D (E (xor_block b prev)) = xor_block b prev" by (rule assms(2) [OF x])
  have c: "xor_block (xor_block b prev) prev = b"
    using Cons.prems by (simp add: xor_block_cancel)
  from Cons.IH [OF e] Cons.prems show ?case by (simp add: Let_def d c)
qed

lemma cbc_roundtrip:
  assumes "\<And>b. length b = 16 \<Longrightarrow> length (E k b) = 16 \<and> D k (E k b) = b"
    and "length iv = 16" and "length data mod 16 = 0"
  shows "cbc_decrypt D k iv (cbc_encrypt E k iv data) = data"
proof -
  from blocks16_aligned [OF assms(3)] have
    b: "\<forall>b \<in> set (blocks16 data). length b = 16" and c: "concat (blocks16 data) = data"
    by simp_all
  have l: "\<forall>c \<in> set (cbc_chain (E k) iv (blocks16 data)). length c = 16"
    using cbc_chain_blocks [of "E k" iv "blocks16 data"] assms(1,2) b by blast
  have u: "cbc_unchain (D k) iv (cbc_chain (E k) iv (blocks16 data)) = blocks16 data"
    using cbc_unchain_chain [of "E k" "D k" iv "blocks16 data"] assms(1,2) b by blast
  show ?thesis
    unfolding cbc_decrypt_def cbc_encrypt_def blocks16_concat [OF l] u c by (rule refl)
qed


subsection \<open>What the envelope decrypts to\<close>

lemma json_pairs_all2:
  "json_pairs d = Inr ss \<Longrightarrow>
     list_all2 (\<lambda>(k, v) item. \<exists>t. json_dumps v = Inr t \<and> item = json_string k @ '':'' @ t) d ss"
proof (induction d arbitrary: ss)
  case Nil
  then show ?case by simp
next
  case (Cons a d)
  obtain k v where a: "a = (k, v)" by (cases a)
  from Cons.prems obtain t ts where
    t: "json_dumps v = Inr t" and ts: "json_pairs d = Inr ts"
    and ss: "ss = (json_string k @ '':'' @ t) # ts"
    by (auto simp: a split: sum.splits)
  from Cons.IH [OF ts] t show ?case by (simp add: a ss)
qed

lemma keys_setitem:
  "map fst (dict_setitem d k v) = map fst d @ (if k \<in> set (map fst d) then [] else [k])"
  by (induction d k v rule: dict_setitem.induct) auto

lemma keys_signed:
  "map fst (signed_params L d path t s) =
     map fst d @ filter (\<lambda>k. k \<notin> set (map fst d)) [''apiPath'', ''appId'', ''timestamp'', ''signature'']"
  by (simp add: signed_params_def assembled_params_def keys_setitem)

lemma toy_block_inverse:
  "length k = 16 \<and> length b = 16 \<longrightarrow>
     length (toy_encrypt_block k b) = 16 \<and> toy_decrypt_block k (toy_encrypt_block k b) = b"
  by (simp add: toy_encrypt_block_def toy_decrypt_block_def length_xor_block xor_block_cancel)

text \<open>
  Claim C3. Let the block decryption \<open>D\<close> invert the block cipher on 16-byte blocks
  under 16-byte keys. When \<open>_crypto_data\<close> returns an envelope, the base64 decoding of
  its \<open>data\<close> field, decrypted in CBC mode with the key that \<open>os.urandom\<close> returned
  and the IV of sixteen zero bytes, is the padded UTF-8 text of the compact JSON form of
  the dict as it is after the call. That dict is the dict of the caller after the four
  assignments of lines 70 to 72 and 88: \<open>apiPath\<close> holds the quoted path, \<open>appId\<close>
  the application id, \<open>timestamp\<close> the reading of the clock and \<open>signature\<close> the
  hexadecimal HMAC of the signing string, and every other entry is as the caller gave it.
  Its JSON text lists the entries in the order of the dict: the keys of the caller in
  their order, followed by those of \<open>apiPath\<close>, \<open>appId\<close>, \<open>timestamp\<close> and
  \<open>signature\<close> that were not there before.
\<close>

theorem envelope_data_decrypts_to_padded_json:
  "(\<forall>k b. length k = 16 \<and> length b = 16 \<longrightarrow>
        length (aes_encrypt_block L k b) = 16 \<and> D k (aes_encrypt_block L k b) = b)
     \<and> fst (crypto_data L p path w) = Inr env \<longrightarrow>
   (\<exists>data_b64 ct js items s.
       Urandom (map (entropy w) [entropy_used w ..< entropy_used w + 16])
         \<in> set (trace (snd (crypto_data L p path w)))
     \<and> AesNew (map (entropy w) [entropy_used w ..< entropy_used w + 16]) (replicate 16 0)
         \<in> set (trace (snd (crypto_data L p path w)))
     \<and> dict_get env ''data'' = Some (PyStr data_b64)
     \<and> b64decode data_b64 = Some ct
     \<and> json_dumps (PyDict (heap (snd (crypto_data L p path w)) p)) = Inr js
     \<and> pad_pkcs7 (utf8_encode js) 16 =
          Inr (cbc_decrypt D (map (entropy w) [entropy_used w ..< entropy_used w + 16])
                 (replicate 16 0) ct)
     \<and> canonicalize (assembled_params (heap w p) path (clock_ms w (clock_reads w))) = Inr s
     \<and> dict_get (heap (snd (crypto_data L p path w)) p) ''signature''
          = Some (PyStr (hexdigest (hmac_digest (md5 L) (utf8_encode SECRET) (utf8_encode s))))
     \<and> heap (snd (crypto_data L p path w)) p =
          dict_setitem
            (dict_setitem
              (dict_setitem
                (dict_setitem (heap w p) ''apiPath'' (PyStr (quote path)))
                ''appId'' (PyStr APP_ID))
              ''timestamp'' (PyInt (clock_ms w (clock_reads w))))
            ''signature''
            (PyStr (hexdigest (hmac_digest (md5 L) (utf8_encode SECRET) (utf8_encode s))))
     \<and> js = ''{'' @ join '','' items @ ''}''
     \<and> list_all2 (\<lambda>(k, v) item. \<exists>t. json_dumps v = Inr t \<and> item = json_string k @ '':'' @ t)
          (heap (snd (crypto_data L p path w)) p) items
     \<and> map fst (heap (snd (crypto_data L p path w)) p) =
          map fst (heap w p) @
          filter (\<lambda>k. k \<notin> set (map fst (heap w p)))
            [''apiPath'', ''appId'', ''timestamp'', ''signature''])"
proof
  assume a: "(\<forall>k b. length k = 16 \<and> length b = 16 \<longrightarrow>
        length (aes_encrypt_block L k b) = 16 \<and> D k (aes_encrypt_block L k b) = b)
     \<and> fst (crypto_data L p path w) = Inr env"
  define key where "key = map (entropy w) [entropy_used w ..< entropy_used w + 16]"
  have lk: "length key = 16" by (simp add: key_def)
  have inv: "\<And>b. length b = 16 \<Longrightarrow>
      length (aes_encrypt_block L key b) = 16 \<and> D key (aes_encrypt_block L key b) = b"
    using a lk by blast
  show "\<exists>data_b64 ct js items s.
       Urandom (map (entropy w) [entropy_used w ..< entropy_used w + 16])
         \<in> set (trace (snd (crypto_data L p path w)))
     \<and> AesNew (map (entropy w) [entropy_used w ..< entropy_used w + 16]) (replicate 16 0)
         \<in> set (trace (snd (crypto_data L p path w)))
     \<and> dict_get env ''data'' = Some (PyStr data_b64)
     \<and> b64decode data_b64 = Some ct
     \<and> json_dumps (PyDict (heap (snd (crypto_data L p path w)) p)) = Inr js
     \<and> pad_pkcs7 (utf8_encode js) 16 =
          Inr (cbc_decrypt D (map (entropy w) [entropy_used w ..< entropy_used w + 16])
                 (replicate 16 0) ct)
     \<and> canonicalize (assembled_params (heap w p) path (clock_ms w (clock_reads w))) = Inr s
     \<and> dict_get (heap (snd (crypto_data L p path w)) p) ''signature''
          = Some (PyStr (hexdigest (hmac_digest (md5 L) (utf8_encode SECRET) (utf8_encode s))))
     \<and> heap (snd (crypto_data L p path w)) p =
          dict_setitem
            (dict_setitem
              (dict_setitem
                (dict_setitem (heap w p) ''apiPath'' (PyStr (quote path)))
                ''appId'' (PyStr APP_ID))
              ''timestamp'' (PyInt (clock_ms w (clock_reads w))))
            ''signature''
            (PyStr (hexdigest (hmac_digest (md5 L) (utf8_encode SECRET) (utf8_encode s))))
     \<and> js = ''{'' @ join '','' items @ ''}''
     \<and> list_all2 (\<lambda>(k, v) item. \<exists>t. json_dumps v = Inr t \<and> item = json_string k @ '':'' @ t)
          (heap (snd (crypto_data L p path w)) p) items
     \<and> map fst (heap (snd (crypto_data L p path w)) p) =
          map fst (heap w p) @
          filter (\<lambda>k. k \<notin> set (map fst (heap w p)))
            [''apiPath'', ''appId'', ''timestamp'', ''signature'']"
  proof (cases rule: crypto_data_cases [of w p path L])
    case (sign_error e)
    then show ?thesis using a by simp
  next
    case (dumps_error s e)
    then show ?thesis using a by simp
  next
    case (import_error s js padded)
    then show ?thesis using a by simp
  next
    case (oaep_error s js padded pk)
    then show ?thesis using a by simp
  next
    case (ok s js padded pk ct')
    define ct where "ct = cbc_encrypt (aes_encrypt_block L) key (replicate 16 0) padded"
    have pl: "padded = utf8_encode js @ replicate (16 - length (utf8_encode js) mod 16)
        (of_nat (16 - length (utf8_encode js) mod 16))"
      using ok(3) unfolding pad_pkcs7_16 by simp
    have al: "length padded mod 16 = 0"
      unfolding pl by (rule padded_aligned)
    have dec: "cbc_decrypt D key (replicate 16 0) ct = padded"
      unfolding ct_def
      using cbc_roundtrip [of "aes_encrypt_block L" key D "replicate 16 0" padded] inv al
      by simp
    from ok(2) obtain items where
      it: "json_pairs (signed_params L (heap w p) path (clock_ms w (clock_reads w)) s) = Inr items"
      and js: "js = ''{'' @ join '','' items @ ''}''"
      by (auto split: sum.splits)
    have h: "heap (snd (crypto_data L p path w)) p
        = signed_params L (heap w p) path (clock_ms w (clock_reads w)) s"
      using ok(6) by simp
    have e: "env = [(''key'', PyStr (b64encode ct')), (''data'', PyStr (b64encode ct))]"
      using ok(6) a by (simp add: ct_def key_def)
    have tr: "Urandom key \<in> set (trace (snd (crypto_data L p path w)))"
      "AesNew key (replicate 16 0) \<in> set (trace (snd (crypto_data L p path w)))"
      using ok(6) by (simp_all add: key_def)
    have d1: "dict_get env ''data'' = Some (PyStr (b64encode ct))"
      unfolding e by simp
    have d2: "b64decode (b64encode ct) = Some ct"
      by (rule b64decode_b64encode)
    have d3: "pad_pkcs7 (utf8_encode js) 16 = Inr (cbc_decrypt D key (replicate 16 0) ct)"
      unfolding dec by (rule ok(3))
    have d4: "dict_get (heap (snd (crypto_data L p path w)) p) ''signature''
          = Some (PyStr (hexdigest (hmac_digest (md5 L) (utf8_encode SECRET) (utf8_encode s))))"
      unfolding h by (simp add: dict_get_signed signature_of_def)
    have d5: "list_all2 (\<lambda>(k, v) item. \<exists>t. json_dumps v = Inr t \<and> item = json_string k @ '':'' @ t)
          (heap (snd (crypto_data L p path w)) p) items"
      unfolding h by (rule json_pairs_all2 [OF it])
    have d6: "map fst (heap (snd (crypto_data L p path w)) p) =
          map fst (heap w p) @
          filter (\<lambda>k. k \<notin> set (map fst (heap w p)))
            [''apiPath'', ''appId'', ''timestamp'', ''signature'']"
      unfolding h by (rule keys_signed)
    have d7: "json_dumps (PyDict (heap (snd (crypto_data L p path w)) p)) = Inr js"
      unfolding h by (rule ok(2))
    have d8: "heap (snd (crypto_data L p path w)) p =
          dict_setitem
            (dict_setitem
              (dict_setitem
                (dict_setitem (heap w p) ''apiPath'' (PyStr (quote path)))
                ''appId'' (PyStr APP_ID))
              ''timestamp'' (PyInt (clock_ms w (clock_reads w))))
            ''signature''
            (PyStr (hexdigest (hmac_digest (md5 L) (utf8_encode SECRET) (utf8_encode s))))"
      unfolding h by (simp add: signed_params_def assembled_params_def signature_of_def)
    from tr d1 d2 d7 d3 ok(1) d4 d8 js d5 d6 show ?thesis
      unfolding key_def by blast
  qed
qed

theorem envelope_data_decrypts_to_padded_json_witness:
  \<open>\<exists>env data_b64 ct.
         fst (crypto_data toy_lib 0 ''/p'' example_world) = Inr env
       \<and> dict_get env ''data'' = Some (PyStr data_b64)
       \<and> b64decode data_b64 = Some ct
       \<and> heap example_world 0 =
            [(''answerResult'', PyInt 1), (''channelId'', PyStr ''APP''), (''inviteCode'', PyNone)]
       \<and> heap (snd (crypto_data toy_lib 0 ''/p'' example_world)) 0 =
            [(''answerResult'', PyInt 1), (''channelId'', PyStr ''APP''), (''inviteCode'', PyNone),
             (''apiPath'', PyStr ''%2Fp''), (''appId'', PyStr ''API_AUTH_WEB''),
             (''timestamp'', PyInt 1700000000000),
             (''signature'', PyStr ''00000000000000000000000000007450'')]
       \<and> pad_pkcs7 (utf8_encode
            ''{"answerResult":1,"channelId":"APP","inviteCode":null,"apiPath":"%2Fp","appId":"API_AUTH_WEB","timestamp":1700000000000,"signature":"00000000000000000000000000007450"}'') 16 =
            Inr (cbc_decrypt toy_decrypt_block
                   (map (entropy example_world)
                      [entropy_used example_world ..< entropy_used example_world + 16])
                   (replicate 16 0) ct)\<close>
proof -
  have i: "\<forall>k b. length k = 16 \<and> length b = 16 \<longrightarrow>
        length (aes_encrypt_block toy_lib k b) = 16
        \<and> toy_decrypt_block k (aes_encrypt_block toy_lib k b) = b"
    using toy_block_inverse by (simp add: toy_lib_def)
  from example_succeeds obtain env w' where
    r: "crypto_data toy_lib 0 ''/p'' example_world = (Inr env, w')" by blast
  then have f: "fst (crypto_data toy_lib 0 ''/p'' example_world) = Inr env" by simp
  have if': "(\<forall>k b. length k = 16 \<and> length b = 16 \<longrightarrow>
        length (aes_encrypt_block toy_lib k b) = 16
        \<and> toy_decrypt_block k (aes_encrypt_block toy_lib k b) = b)
     \<and> fst (crypto_data toy_lib 0 ''/p'' example_world) = Inr env"
    using i f by (rule conjI)
  note th = envelope_data_decrypts_to_padded_json
    [of toy_lib toy_decrypt_block 0 "''/p''" example_world env, THEN mp, OF if']
  from th obtain data_b64 ct js s where
    d: "dict_get env ''data'' = Some (PyStr data_b64)"
    and b: "b64decode data_b64 = Some ct"
    and j: "json_dumps (PyDict (heap (snd (crypto_data toy_lib 0 ''/p'' example_world)) 0)) = Inr js"
    and q: "pad_pkcs7 (utf8_encode js) 16 =
            Inr (cbc_decrypt toy_decrypt_block
                   (map (entropy example_world)
                      [entropy_used example_world ..< entropy_used example_world + 16])
                   (replicate 16 0) ct)"
    and c: "canonicalize (assembled_params (heap example_world 0) ''/p''
              (clock_ms example_world (clock_reads example_world))) = Inr s"
    and h: "heap (snd (crypto_data toy_lib 0 ''/p'' example_world)) 0 =
          dict_setitem
            (dict_setitem
              (dict_setitem
                (dict_setitem (heap example_world 0) ''apiPath'' (PyStr (quote ''/p'')))
                ''appId'' (PyStr APP_ID))
              ''timestamp'' (PyInt (clock_ms example_world (clock_reads example_world))))
            ''signature''
            (PyStr (hexdigest (hmac_digest (md5 toy_lib) (utf8_encode SECRET) (utf8_encode s))))"
    by (elim exE conjE)
  have c': "canonicalize (assembled_params (heap example_world 0) ''/p''
              (clock_ms example_world (clock_reads example_world))) =
      Inr ''answerResult=1&apiPath=%2Fp&appId=API_AUTH_WEB&channelId=APP&timestamp=1700000000000''"
    by code_simp
  from c c' have s: "s = ''answerResult=1&apiPath=%2Fp&appId=API_AUTH_WEB&channelId=APP&timestamp=1700000000000''"
    by simp
  have h0: "heap example_world 0 =
      [(''answerResult'', PyInt 1), (''channelId'', PyStr ''APP''), (''inviteCode'', PyNone)]"
    by code_simp
  have hx: "dict_setitem
            (dict_setitem
              (dict_setitem
                (dict_setitem (heap example_world 0) ''apiPath'' (PyStr (quote ''/p'')))
                ''appId'' (PyStr APP_ID))
              ''timestamp'' (PyInt (clock_ms example_world (clock_reads example_world))))
            ''signature''
            (PyStr (hexdigest (hmac_digest (md5 toy_lib) (utf8_encode SECRET) (utf8_encode
               ''answerResult=1&apiPath=%2Fp&appId=API_AUTH_WEB&channelId=APP&timestamp=1700000000000''))))
      = [(''answerResult'', PyInt 1), (''channelId'', PyStr ''APP''), (''inviteCode'', PyNone),
         (''apiPath'', PyStr ''%2Fp''), (''appId'', PyStr ''API_AUTH_WEB''),
         (''timestamp'', PyInt 1700000000000),
         (''signature'', PyStr ''00000000000000000000000000007450'')]"
    by code_simp
  have h1: "heap (snd (crypto_data toy_lib 0 ''/p'' example_world)) 0 =
      [(''answerResult'', PyInt 1), (''channelId'', PyStr ''APP''), (''inviteCode'', PyNone),
       (''apiPath'', PyStr ''%2Fp''), (''appId'', PyStr ''API_AUTH_WEB''),
       (''timestamp'', PyInt 1700000000000),
       (''signature'', PyStr ''00000000000000000000000000007450'')]"
    using h unfolding s hx .
  have jx: \<open>json_dumps (PyDict
      [(''answerResult'', PyInt 1), (''channelId'', PyStr ''APP''), (''inviteCode'', PyNone),
       (''apiPath'', PyStr ''%2Fp''), (''appId'', PyStr ''API_AUTH_WEB''),
       (''timestamp'', PyInt 1700000000000),
       (''signature'', PyStr ''00000000000000000000000000007450'')]) =
     Inr ''{"answerResult":1,"channelId":"APP","inviteCode":null,"apiPath":"%2Fp","appId":"API_AUTH_WEB","timestamp":1700000000000,"signature":"00000000000000000000000000007450"}''\<close>
    by code_simp
  from j jx have js: \<open>js = ''{"answerResult":1,"channelId":"APP","inviteCode":null,"apiPath":"%2Fp","appId":"API_AUTH_WEB","timestamp":1700000000000,"signature":"00000000000000000000000000007450"}''\<close>
    unfolding h1 by simp
  from f d b h0 h1 q [unfolded js] show ?thesis
    by (intro exI conjI)
qed

end
